theory Spec2Isabelle
  imports Main
begin

section \<open>digenv: the pipeline printenv | grep | sort | pager\<close>

text \<open>
  The program \<^verbatim>\<open>lab 1/digenv.c\<close> is one function, \<^verbatim>\<open>main\<close>, that creates three
  pipes, forks one process per stage and reaps them. The model follows one process
  through \<^verbatim>\<open>main\<close>: its local variables and its descriptor table are a record, every
  statement is a state transformer, and what the operating system answers to each
  system call is read from a \<open>world\<close>. A run in which a \<^verbatim>\<open>fork\<close> returns 0 is the run of
  that stage process; a run in which every \<^verbatim>\<open>fork\<close> returns a positive number is the
  run of the parent.
\<close>

subsection \<open>Data\<close>

text \<open>\<^verbatim>\<open>#define PIPE_IN 0\<close>, \<^verbatim>\<open>#define PIPE_OUT 1\<close>, and the two standard descriptors.\<close>

definition PIPE_IN :: nat where "PIPE_IN = 0"
definition PIPE_OUT :: nat where "PIPE_OUT = 1"
definition STDIN_FILENO :: int where "STDIN_FILENO = 0"
definition STDOUT_FILENO :: int where "STDOUT_FILENO = 1"

text \<open>
  What an open descriptor refers to: a stream the process was started with, or one end
  of the \<open>k\<close>-th channel that \<^verbatim>\<open>pipe\<close> created (\<open>Chan k PIPE_IN\<close> its read end,
  \<open>Chan k PIPE_OUT\<close> its write end). The descriptor table is the list of the entries
  0, 1, 2, ...; a closed descriptor is \<open>None\<close>.
\<close>

datatype descr = Stream nat | Chan nat nat

type_synonym fd_table = "descr option list"

text \<open>
  The status \<^verbatim>\<open>wait\<close> stores, as the macros of \<^verbatim>\<open>sys/wait.h\<close> read it: a normal exit
  with a code, a termination by a signal, or neither.
\<close>

datatype wait_status = Exited int | Signaled int | Stopped int

fun WIFEXITED :: "wait_status \<Rightarrow> bool" where
  "WIFEXITED (Exited c) = True"
| "WIFEXITED _ = False"

fun WEXITSTATUS :: "wait_status \<Rightarrow> int" where
  "WEXITSTATUS (Exited c) = c"
| "WEXITSTATUS _ = 0"

fun WIFSIGNALED :: "wait_status \<Rightarrow> bool" where
  "WIFSIGNALED (Signaled g) = True"
| "WIFSIGNALED _ = False"

fun WTERMSIG :: "wait_status \<Rightarrow> int" where
  "WTERMSIG (Signaled g) = g"
| "WTERMSIG _ = 0"

text \<open>The four places of \<^verbatim>\<open>main\<close> that fork, named after the stage they create.\<close>

datatype role = Source | Filter | Sort | Sink

text \<open>
  How a process ends: it calls \<^verbatim>\<open>exit\<close> with a status, or an \<^verbatim>\<open>exec\<close> call replaces its
  image with a program and an argument vector.
\<close>

datatype outcome = Exit int | Image string "string list"

text \<open>
  Every library call leaves an event, in program order. A system call carries the value
  it returned. \<open>Printf\<close> is a call of \<^verbatim>\<open>printf\<close> with the text it formats: the text goes
  to the stream \<^verbatim>\<open>stdout\<close>, which holds it in its buffer; \<open>Sys_write\<close> is the
  \<^verbatim>\<open>write\<close> by which the library transmits held text to a descriptor. \<open>Perror\<close> is a
  message (the given prefix and the text of \<^verbatim>\<open>errno\<close>) on the standard error stream,
  which is not buffered.
\<close>

datatype event =
    Sys_pipe int
  | Sys_fork role int
  | Sys_dup2 int int int
  | Sys_close int int
  | Sys_exec string "string list" bool
  | Sys_wait int "wait_status option"
  | Getenv string "string option"
  | Printf string
  | Sys_write int string
  | Perror string
  | Sys_exit int

text \<open>
  How the library buffers \<^verbatim>\<open>stdout\<close> (the modes of \<^verbatim>\<open>setvbuf\<close>, with the size of the
  buffer): the library chooses line buffering when the stream refers to a terminal and
  full buffering otherwise.
\<close>

datatype buffering = Unbuffered | Line_buffered nat | Fully_buffered nat

text \<open>
  The world of one run: the argument vector and the environment; the descriptors the
  process starts with and the buffering of its standard output; for the \<open>n\<close>-th system
  call of the process, whether it fails for a reason outside the program (\<open>fails\<close>) and,
  for a \<^verbatim>\<open>fork\<close> that succeeds, the number it returns (0 in the child); and the
  terminations of the children in the order in which \<^verbatim>\<open>wait\<close> reports them.
\<close>

record world =
  argv :: "string list"
  environ :: "string \<Rightarrow> string option"
  inherited :: fd_table
  stdout_mode :: buffering
  fails :: "nat \<Rightarrow> bool"
  fork_ret :: "nat \<Rightarrow> nat"
  terminations :: "(nat \<times> wait_status) list"

text \<open>
  The state of the process: the locals of \<^verbatim>\<open>main\<close> under their own names, then the
  descriptor table, the text that \<^verbatim>\<open>stdout\<close> holds in its buffer, the children not yet
  reaped, the number of system calls made so far, the events, and how the process ended
  (\<open>None\<close> while it runs).
\<close>

record state =
  grep :: int
  pid :: int
  sys_return :: int
  i :: int
  pipes :: "int list list"
  pager :: "string option"
  return_status :: wait_status
  exit_value :: int
  cur :: int
  fds :: fd_table
  stdout_buf :: string
  pending :: "(nat \<times> wait_status) list"
  clock :: nat
  trace :: "event list"
  halted :: "outcome option"

subsection \<open>Sequencing\<close>

text \<open>Statements run in order while the process is alive.\<close>

fun run :: "(state \<Rightarrow> state) list \<Rightarrow> state \<Rightarrow> state" where
  "run [] s = s"
| "run (c # cs) s = (if halted s = None then run cs (c s) else s)"

text \<open>\<^verbatim>\<open>sys_return = call\<close>, \<^verbatim>\<open>pid = call\<close>, and a call whose value is dropped.\<close>

definition sys_return_gets :: "(state \<Rightarrow> int \<times> state) \<Rightarrow> state \<Rightarrow> state" where
  "sys_return_gets c s = (case c s of (r, s') \<Rightarrow> s'\<lparr>sys_return := r\<rparr>)"

definition pid_gets :: "(state \<Rightarrow> int \<times> state) \<Rightarrow> state \<Rightarrow> state" where
  "pid_gets c s = (case c s of (r, s') \<Rightarrow> s'\<lparr>pid := r\<rparr>)"

definition call :: "(state \<Rightarrow> int \<times> state) \<Rightarrow> state \<Rightarrow> state" where
  "call c s = snd (c s)"

text \<open>An expression statement: the value is computed and dropped.\<close>

definition expr_stmt :: "bool \<Rightarrow> state \<Rightarrow> state" where
  "expr_stmt b s = s"

subsection \<open>The library\<close>

definition emit :: "event \<Rightarrow> state \<Rightarrow> state" where
  "emit e s = s\<lparr>trace := trace s @ [e]\<rparr>"

definition tick :: "state \<Rightarrow> state" where
  "tick s = s\<lparr>clock := clock s + 1\<rparr>"

definition perror :: "string \<Rightarrow> state \<Rightarrow> state" where
  "perror msg s = emit (Perror msg) s"

text \<open>
  The buffer of \<^verbatim>\<open>stdout\<close>, as the C standard describes the three kinds of buffering:
  the characters of an unbuffered stream appear at once; those of a fully buffered stream
  are transmitted as a block when the buffer is filled; those of a line buffered stream
  also when a new-line character is met. \<open>due\<close> is the number of characters, of the text
  that the buffer holds after a call, that the library transmits at once: the blocks that
  fill the buffer and, under line buffering, everything up to the last new-line
  character. The rest stays in the buffer, in the memory of the process.
\<close>

definition newline :: char where
  "newline = CHR 0x0A"

definition full_blocks :: "nat \<Rightarrow> string \<Rightarrow> nat" where
  "full_blocks n b = (if n = 0 then length b else (length b div n) * n)"

definition whole_lines :: "string \<Rightarrow> nat" where
  "whole_lines b = length b - length (takeWhile (\<lambda>c. c \<noteq> newline) (rev b))"

fun due :: "buffering \<Rightarrow> string \<Rightarrow> nat" where
  "due Unbuffered b = length b"
| "due (Fully_buffered n) b = full_blocks n b"
| "due (Line_buffered n) b =
     max (if newline \<in> set b then whole_lines b else 0) (full_blocks n b)"

definition sent :: "buffering \<Rightarrow> string \<Rightarrow> string \<Rightarrow> string" where
  "sent m buf text = take (due m (buf @ text)) (buf @ text)"

definition kept :: "buffering \<Rightarrow> string \<Rightarrow> string \<Rightarrow> string" where
  "kept m buf text = drop (due m (buf @ text)) (buf @ text)"

text \<open>The \<^verbatim>\<open>write\<close> to descriptor 1 that transmits a text; no call for no text.\<close>

definition writes :: "string \<Rightarrow> event list" where
  "writes t = (if t = [] then [] else [Sys_write 1 t])"

text \<open>
  \<^verbatim>\<open>printf\<close> gives the formatted text to \<^verbatim>\<open>stdout\<close>; the program never calls
  \<^verbatim>\<open>fflush\<close>. \<^verbatim>\<open>exit\<close> flushes the stream before the process ends.
\<close>

definition printf :: "world \<Rightarrow> string \<Rightarrow> state \<Rightarrow> state" where
  "printf w text s =
     s\<lparr>trace := trace s @ Printf text # writes (sent (stdout_mode w) (stdout_buf s) text),
       stdout_buf := kept (stdout_mode w) (stdout_buf s) text\<rparr>"

definition exit :: "int \<Rightarrow> state \<Rightarrow> state" where
  "exit n s =
     s\<lparr>trace := trace s @ writes (stdout_buf s) @ [Sys_exit n], stdout_buf := [],
       halted := Some (Exit n)\<rparr>"

definition getenv :: "world \<Rightarrow> string \<Rightarrow> state \<Rightarrow> string option \<times> state" where
  "getenv w name s = (environ w name, emit (Getenv name (environ w name)) s)"

text \<open>The lowest descriptor that is not open, and the table with a descriptor set.\<close>

fun lowest_free :: "fd_table \<Rightarrow> nat" where
  "lowest_free [] = 0"
| "lowest_free (None # ds) = 0"
| "lowest_free (Some d # ds) = Suc (lowest_free ds)"

definition install :: "nat \<Rightarrow> descr \<Rightarrow> fd_table \<Rightarrow> fd_table" where
  "install fd d tbl =
     (if fd < length tbl then tbl[fd := Some d]
      else tbl @ replicate (fd - length tbl) None @ [Some d])"

definition is_open :: "int \<Rightarrow> fd_table \<Rightarrow> bool" where
  "is_open fd tbl = (0 \<le> fd \<and> nat fd < length tbl \<and> tbl ! nat fd \<noteq> None)"

text \<open>
  \<^verbatim>\<open>pipe(pipes[k])\<close>: a new channel, named \<open>k\<close> after the entry of \<^verbatim>\<open>pipes\<close> that
  receives it; its read end takes the lowest free descriptor, its write end the next
  one, and both are stored in \<^verbatim>\<open>pipes[k]\<close>.
\<close>

definition alloc :: "descr \<Rightarrow> fd_table \<Rightarrow> nat \<times> fd_table" where
  "alloc d tbl = (lowest_free tbl, install (lowest_free tbl) d tbl)"

definition pipe :: "world \<Rightarrow> nat \<Rightarrow> state \<Rightarrow> int \<times> state" where
  "pipe w k s =
     (if fails w (clock s) then (-1, tick (emit (Sys_pipe (-1)) s))
      else
        (0, tick (emit (Sys_pipe 0)
              (s\<lparr>pipes := (pipes s)
                     [k := [int (fst (alloc (Chan k PIPE_IN) (fds s))),
                            int (fst (alloc (Chan k PIPE_OUT)
                                   (snd (alloc (Chan k PIPE_IN) (fds s)))))]],
                 fds := snd (alloc (Chan k PIPE_OUT)
                          (snd (alloc (Chan k PIPE_IN) (fds s))))\<rparr>))))"

text \<open>
  \<^verbatim>\<open>fork()\<close>: -1 on failure, 0 in the new process, which has no child of its own, and
  the child's number in the parent.
\<close>

definition fork :: "world \<Rightarrow> role \<Rightarrow> state \<Rightarrow> int \<times> state" where
  "fork w r s =
     (if fails w (clock s) then (-1, tick (emit (Sys_fork r (-1)) s))
      else if fork_ret w (clock s) = 0
        then (0, tick (emit (Sys_fork r 0) (s\<lparr>pending := []\<rparr>)))
      else (int (fork_ret w (clock s)),
            tick (emit (Sys_fork r (int (fork_ret w (clock s)))) s)))"

text \<open>\<^verbatim>\<open>dup2(oldfd, newfd)\<close>: \<open>newfd\<close> refers to what \<open>oldfd\<close> refers to.\<close>

definition dup_table :: "int \<Rightarrow> int \<Rightarrow> fd_table \<Rightarrow> fd_table" where
  "dup_table oldfd newfd tbl =
     (if oldfd = newfd then tbl else install (nat newfd) (the (tbl ! nat oldfd)) tbl)"

definition dup2 :: "world \<Rightarrow> int \<Rightarrow> int \<Rightarrow> state \<Rightarrow> int \<times> state" where
  "dup2 w oldfd newfd s =
     (if fails w (clock s) \<or> \<not> is_open oldfd (fds s) \<or> newfd < 0
        then (-1, tick (emit (Sys_dup2 oldfd newfd (-1)) s))
      else (newfd, tick (emit (Sys_dup2 oldfd newfd newfd)
              (s\<lparr>fds := dup_table oldfd newfd (fds s)\<rparr>))))"

definition close :: "world \<Rightarrow> int \<Rightarrow> state \<Rightarrow> int \<times> state" where
  "close w fd s =
     (if fails w (clock s) \<or> \<not> is_open fd (fds s)
        then (-1, tick (emit (Sys_close fd (-1)) s))
      else (0, tick (emit (Sys_close fd 0) (s\<lparr>fds := (fds s)[nat fd := None]\<rparr>))))"

text \<open>
  \<^verbatim>\<open>execlp(file, arg0, ..., (char *) 0)\<close> and \<^verbatim>\<open>execvp(file, argv)\<close>: on success the
  process is the program from then on and the call never returns; the memory of the old
  image is gone, and with it the text that \<^verbatim>\<open>stdout\<close> still held. On failure the call
  returns -1.
\<close>

definition execvp :: "world \<Rightarrow> string \<Rightarrow> string list \<Rightarrow> state \<Rightarrow> int \<times> state" where
  "execvp w file args s =
     (if fails w (clock s) then (-1, tick (emit (Sys_exec file args False) s))
      else (0, (tick (emit (Sys_exec file args True) s))
                 \<lparr>stdout_buf := [], halted := Some (Image file args)\<rparr>))"

definition execlp :: "world \<Rightarrow> string \<Rightarrow> string list \<Rightarrow> state \<Rightarrow> int \<times> state" where
  "execlp w file args s = execvp w file args s"

text \<open>
  \<^verbatim>\<open>wait(&return_status)\<close>: the next child that terminated and its status; -1 when the
  call fails or no child is left.
\<close>

definition wait :: "world \<Rightarrow> state \<Rightarrow> int \<times> state" where
  "wait w s =
     (if fails w (clock s) then (-1, tick (emit (Sys_wait (-1) None) s))
      else case pending s of
        [] \<Rightarrow> (-1, tick (emit (Sys_wait (-1) None) s))
      | (p, st) # rest \<Rightarrow>
          (int p, tick (emit (Sys_wait (int p) (Some st))
                    (s\<lparr>return_status := st, pending := rest\<rparr>))))"

text \<open>The decimal text that \<^verbatim>\<open>%d\<close> prints.\<close>

fun dec :: "nat \<Rightarrow> string" where
  "dec n = (if n < 10 then [char_of (48 + n)] else dec (n div 10) @ [char_of (48 + n mod 10)])"

definition show_int :: "int \<Rightarrow> string" where
  "show_int n = (if n < 0 then CHR ''-'' # dec (nat (- n)) else dec (nat n))"

subsection \<open>check\_sys\_return (lines 67 to 74)\<close>

definition check_sys_return :: "int \<Rightarrow> string \<Rightarrow> state \<Rightarrow> state" where
  "check_sys_return sys_ret error_string s =
     (if -1 = sys_ret then run [perror error_string, exit 1] s else s)"

subsection \<open>main: the pipes (lines 85 to 99)\<close>

text \<open>
  A local that the source leaves uninitialised holds a placeholder here; none of them is
  read before the program has written it.
\<close>

definition init :: "world \<Rightarrow> state" where
  "init w =
     \<lparr>grep = 0, pid = 0, sys_return = 0, i = 0, pipes = [[0, 0], [0, 0], [0, 0]],
      pager = None, return_status = Exited 0, exit_value = 0, cur = 0,
      fds = inherited w, stdout_buf = [], pending = terminations w, clock = 0,
      trace = [], halted = None\<rparr>"

text \<open>The declarations with an initialiser; \<^verbatim>\<open>argc\<close> is the length of \<^verbatim>\<open>argv\<close>.\<close>

definition declarations :: "world \<Rightarrow> state \<Rightarrow> state" where
  "declarations w s =
     s\<lparr>grep := (if int (length (argv w)) > 1 then 1 else 0), exit_value := 0, cur := 0\<rparr>"

definition pipe_body :: "world \<Rightarrow> state \<Rightarrow> state" where
  "pipe_body w =
     run [\<lambda>s. sys_return_gets (pipe w (nat (i s))) s,
          \<lambda>s. check_sys_return (sys_return s) ''Error when creating pipe'' s]"

lemma pipe_body_keeps: "halted (pipe_body w s) = None \<Longrightarrow> i (pipe_body w s) = i s"
  by (simp add: pipe_body_def sys_return_gets_def pipe_def check_sys_return_def
      perror_def exit_def emit_def tick_def split: if_splits)

function pipe_loop :: "world \<Rightarrow> state \<Rightarrow> state" where
  "pipe_loop w s =
     (if halted s = None \<and> i s < 3
      then pipe_loop w (run [pipe_body w, \<lambda>s. s\<lparr>i := i s + 1\<rparr>] s)
      else s)"
  by pat_completeness auto
termination
  by (relation "measure (\<lambda>(w, s). if halted s = None then nat (3 - i s) + 1 else 0)")
    (auto simp: pipe_body_keeps)

declare pipe_loop.simps [simp del]

definition create_pipes :: "world \<Rightarrow> state \<Rightarrow> state" where
  "create_pipes w = run [\<lambda>s. s\<lparr>i := 0\<rparr>, pipe_loop w]"

subsection \<open>main: the stage that runs printenv (lines 101 to 128)\<close>

definition printenv_stage :: "world \<Rightarrow> state \<Rightarrow> state" where
  "printenv_stage w =
     run [\<lambda>s. sys_return_gets (dup2 w (pipes s ! nat (cur s) ! PIPE_OUT) STDOUT_FILENO) s,
          \<lambda>s. check_sys_return (sys_return s) ''@printenv: Error when duplicating pipe'' s,
          \<lambda>s. sys_return_gets (close w (pipes s ! nat (cur s) ! PIPE_IN)) s,
          \<lambda>s. check_sys_return (sys_return s)
                 ''@printenv: Error when closing read side of pipe'' s,
          \<lambda>s. sys_return_gets (close w (pipes s ! nat (cur s) ! PIPE_OUT)) s,
          \<lambda>s. check_sys_return (sys_return s)
                 ''@printenv: Error when closing write side of pipe'' s,
          call (execlp w ''printenv'' [''printenv'']),
          perror ''Problem with call to printenv'',
          exit 1]"

definition spawn_printenv :: "world \<Rightarrow> state \<Rightarrow> state" where
  "spawn_printenv w =
     run [pid_gets (fork w Source),
          \<lambda>s. check_sys_return (pid s) ''Error when forking'' s,
          \<lambda>s. if 0 = pid s then printenv_stage w s else s,
          \<lambda>s. s\<lparr>cur := cur s + 1\<rparr>]"

subsection \<open>main: the stage that runs grep (lines 131 to 173)\<close>

definition grep_stage :: "world \<Rightarrow> state \<Rightarrow> state" where
  "grep_stage w =
     run [\<lambda>s. sys_return_gets (dup2 w (pipes s ! nat (cur s - 1) ! PIPE_IN) STDIN_FILENO) s,
          \<lambda>s. check_sys_return (sys_return s)
                 ''@grep: Error when duplicating read side of pipe'' s,
          \<lambda>s. sys_return_gets (close w (pipes s ! nat (cur s - 1) ! PIPE_OUT)) s,
          \<lambda>s. check_sys_return (sys_return s) ''@grep: Error when closing read side of pipe'' s,
          \<lambda>s. sys_return_gets (dup2 w (pipes s ! nat (cur s) ! PIPE_OUT) STDOUT_FILENO) s,
          \<lambda>s. check_sys_return (sys_return s)
                 ''@grep: Error when duplicating read side of pipe'' s,
          \<lambda>s. sys_return_gets (close w (pipes s ! nat (cur s) ! PIPE_IN)) s,
          \<lambda>s. check_sys_return (sys_return s) ''@grep: Error when closing read side of pipe'' s,
          call (execvp w ''grep'' (argv w)),
          perror ''Problem with call to grep'',
          exit 1]"

definition spawn_grep :: "world \<Rightarrow> state \<Rightarrow> state" where
  "spawn_grep w =
     run [pid_gets (fork w Filter),
          \<lambda>s. check_sys_return (pid s) ''Error when forking'' s,
          \<lambda>s. if 0 = pid s then grep_stage w s else s,
          \<lambda>s. s\<lparr>cur := cur s + 1\<rparr>,
          \<lambda>s. sys_return_gets (close w (pipes s ! nat (cur s - 2) ! PIPE_IN)) s,
          \<lambda>s. check_sys_return (sys_return s) ''Error when closing read side of pipe'' s,
          \<lambda>s. sys_return_gets (close w (pipes s ! nat (cur s - 2) ! PIPE_OUT)) s,
          \<lambda>s. check_sys_return (sys_return s) ''Error when closing read side of pipe'' s]"

subsection \<open>main: the stage that runs sort (lines 175 to 215)\<close>

definition sort_stage :: "world \<Rightarrow> state \<Rightarrow> state" where
  "sort_stage w =
     run [\<lambda>s. sys_return_gets (dup2 w (pipes s ! nat (cur s - 1) ! PIPE_IN) STDIN_FILENO) s,
          \<lambda>s. check_sys_return (sys_return s)
                 ''@sort: Error when duplicating read side of pipe'' s,
          \<lambda>s. sys_return_gets (close w (pipes s ! nat (cur s - 1) ! PIPE_OUT)) s,
          \<lambda>s. check_sys_return (sys_return s) ''@sort: Error when closing write side of pipe'' s,
          \<lambda>s. sys_return_gets (dup2 w (pipes s ! nat (cur s) ! PIPE_OUT) STDOUT_FILENO) s,
          \<lambda>s. check_sys_return (sys_return s)
                 ''@sort: Error when duplicating read side of pipe'' s,
          \<lambda>s. sys_return_gets (close w (pipes s ! nat (cur s) ! PIPE_IN)) s,
          \<lambda>s. check_sys_return (sys_return s) ''@sort: Error when closing write side of pipe'' s,
          call (execlp w ''sort'' [''sort'']),
          perror ''Problem with call to sort'',
          exit 1]"

definition spawn_sort :: "world \<Rightarrow> state \<Rightarrow> state" where
  "spawn_sort w =
     run [pid_gets (fork w Sort),
          \<lambda>s. check_sys_return (pid s) ''Error when forking'' s,
          \<lambda>s. if 0 = pid s then sort_stage w s else s,
          \<lambda>s. s\<lparr>cur := cur s + 1\<rparr>,
          \<lambda>s. sys_return_gets (close w (pipes s ! nat (cur s - 2) ! PIPE_IN)) s,
          \<lambda>s. check_sys_return (sys_return s) ''Error when closing read side of pipe'' s,
          \<lambda>s. sys_return_gets (close w (pipes s ! nat (cur s - 2) ! PIPE_OUT)) s,
          \<lambda>s. check_sys_return (sys_return s) ''Error when closing read side of pipe'' s]"

subsection \<open>main: the stage that runs the pager (lines 218 to 263)\<close>

definition pager_gets :: "(state \<Rightarrow> string option \<times> state) \<Rightarrow> state \<Rightarrow> state" where
  "pager_gets c s = (case c s of (r, s') \<Rightarrow> s'\<lparr>pager := r\<rparr>)"

text \<open>Lines 242 to 252: which pager the stage becomes.\<close>

definition check_pager :: "world \<Rightarrow> state \<Rightarrow> state" where
  "check_pager w =
     run [pager_gets (getenv w ''PAGER''),
          \<lambda>s. if None \<noteq> pager s
               then run [printf w (''Found PAGER: '' @ the (pager s)),
                         call (execlp w (the (pager s)) [the (pager s)])] s
               else s,
          call (execlp w ''less'' [''less'']),
          call (execlp w ''more'' [''more'']),
          perror ''Problem with call to pager'',
          exit 1]"

definition pager_stage :: "world \<Rightarrow> state \<Rightarrow> state" where
  "pager_stage w =
     run [\<lambda>s. sys_return_gets (dup2 w (pipes s ! nat (cur s - 1) ! PIPE_IN) STDIN_FILENO) s,
          \<lambda>s. check_sys_return (sys_return s)
                 ''@pager: Error when duplicating read side of pipe'' s,
          \<lambda>s. sys_return_gets (close w (pipes s ! nat (cur s - 1) ! PIPE_OUT)) s,
          \<lambda>s. check_sys_return (sys_return s)
                 ''@pager: Error when closing write side of pipe'' s,
          check_pager w]"

definition spawn_pager :: "world \<Rightarrow> state \<Rightarrow> state" where
  "spawn_pager w =
     run [pid_gets (fork w Sink),
          \<lambda>s. check_sys_return (pid s) ''Error when forking'' s,
          \<lambda>s. if 0 = pid s then pager_stage w s else s,
          \<lambda>s. s\<lparr>cur := cur s + 1\<rparr>,
          \<lambda>s. sys_return_gets (close w (pipes s ! nat (cur s - 2) ! PIPE_IN)) s,
          \<lambda>s. check_sys_return (sys_return s) ''Error when closing read side of pipe'' s,
          \<lambda>s. sys_return_gets (close w (pipes s ! nat (cur s - 2) ! PIPE_OUT)) s,
          \<lambda>s. check_sys_return (sys_return s) ''Error when closing read side of pipe'' s]"

subsection \<open>main: reaping the children (lines 265 to 294)\<close>

definition exit_message :: "int \<Rightarrow> int \<Rightarrow> string" where
  "exit_message child_status p =
     ''A child had problem and failed with exit code '' @ show_int child_status @
     [CHR ''.'', CHR 0x0A] @ ''Child pid: '' @ show_int p @ [CHR 0x0A]"

definition signal_message :: "int \<Rightarrow> int \<Rightarrow> string" where
  "signal_message child_status p =
     ''A child had problem and failed with signal '' @ show_int child_status @
     [CHR ''.'', CHR 0x0A] @ ''Child pid: '' @ show_int p @ [CHR 0x0A]"

text \<open>
  The body of the loop. Line 289 is the expression statement
  \<^verbatim>\<open>exit_value == child_status;\<close>: a comparison, whose value is dropped.
\<close>

definition reap_body :: "world \<Rightarrow> state \<Rightarrow> state" where
  "reap_body w =
     run [pid_gets (wait w),
          \<lambda>s. check_sys_return (pid s) ''@digenv: wait() returned unexpectedly'' s,
          \<lambda>s. if WIFEXITED (return_status s)
               then (let child_status = WEXITSTATUS (return_status s)
                     in if 0 = exit_value s \<and> 0 \<noteq> child_status
                        then run [\<lambda>s. printf w (exit_message child_status (pid s)) s,
                                  \<lambda>s. s\<lparr>exit_value := child_status\<rparr>] s
                        else s)
               else (if 0 = exit_value s \<and> WIFSIGNALED (return_status s)
                     then (let child_status = WTERMSIG (return_status s)
                           in run [\<lambda>s. printf w (signal_message child_status (pid s)) s,
                                   \<lambda>s. expr_stmt (exit_value s = child_status) s] s)
                     else s)]"

lemma reap_body_keeps:
  "halted (reap_body w s) = None \<Longrightarrow> i (reap_body w s) = i s \<and> cur (reap_body w s) = cur s"
  by (simp add: reap_body_def pid_gets_def wait_def check_sys_return_def perror_def
      printf_def exit_def emit_def tick_def expr_stmt_def Let_def
      split: if_splits list.splits prod.splits)

function reap_loop :: "world \<Rightarrow> state \<Rightarrow> state" where
  "reap_loop w s =
     (if halted s = None \<and> i s < cur s
      then reap_loop w (run [reap_body w, \<lambda>s. s\<lparr>i := i s + 1\<rparr>] s)
      else s)"
  by pat_completeness auto
termination
  by (relation "measure (\<lambda>(w, s). if halted s = None then nat (cur s - i s) + 1 else 0)")
    (auto simp: reap_body_keeps)

declare reap_loop.simps [simp del]

definition reaper :: "world \<Rightarrow> state \<Rightarrow> state" where
  "reaper w = run [\<lambda>s. s\<lparr>i := 0\<rparr>, reap_loop w]"

subsection \<open>main\<close>

text \<open>Lines 85 to 263: everything up to the first \<^verbatim>\<open>wait\<close>.\<close>

definition builder :: "world \<Rightarrow> state \<Rightarrow> state" where
  "builder w =
     run [declarations w,
          create_pipes w,
          spawn_printenv w,
          \<lambda>s. if grep s \<noteq> 0 then spawn_grep w s else s,
          spawn_sort w,
          spawn_pager w]"

definition main :: "world \<Rightarrow> state" where
  "main w = run [builder w, reaper w, \<lambda>s. exit (exit_value s) s] (init w)"


section \<open>Observations\<close>


subsection \<open>What a trace shows\<close>

fun is_exec :: "event \<Rightarrow> bool" where
  "is_exec (Sys_exec f a ok) = True"
| "is_exec _ = False"

fun spawn_of :: "event \<Rightarrow> role list" where
  "spawn_of (Sys_fork r p) = (if 0 < p then [r] else [])"
| "spawn_of _ = []"

definition spawned :: "event list \<Rightarrow> role list" where
  "spawned t = concat (map spawn_of t)"

fun is_fork0 :: "event \<Rightarrow> bool" where
  "is_fork0 (Sys_fork r p) = (p = 0)"
| "is_fork0 _ = False"

definition after_fork0 :: "event list \<Rightarrow> event list" where
  "after_fork0 t = tl (dropWhile (\<lambda>e. \<not> is_fork0 e) t)"

fun builder_call :: "event \<Rightarrow> bool" where
  "builder_call (Sys_pipe r) = True"
| "builder_call (Sys_fork r p) = True"
| "builder_call (Sys_wait p st) = True"
| "builder_call _ = False"

fun stdout_of :: "event \<Rightarrow> string list" where
  "stdout_of (Printf m) = [m]"
| "stdout_of _ = []"

definition stdout_text :: "event list \<Rightarrow> string list" where
  "stdout_text t = concat (map stdout_of t)"

text \<open>The texts that reached descriptor 1.\<close>

fun written_of :: "event \<Rightarrow> string list" where
  "written_of (Sys_write fd t) = (if fd = 1 then [t] else [])"
| "written_of _ = []"

definition written :: "event list \<Rightarrow> string list" where
  "written t = concat (map written_of t)"

fun stderr_of :: "event \<Rightarrow> string list" where
  "stderr_of (Perror m) = [m]"
| "stderr_of _ = []"

definition stderr_text :: "event list \<Rightarrow> string list" where
  "stderr_text t = concat (map stderr_of t)"

definition topology :: "world \<Rightarrow> role list" where
  "topology w = (if 1 < length (argv w) then [Source, Filter, Sort, Sink] else [Source, Sort, Sink])"

definition candidates :: "string option \<Rightarrow> (string \<times> string list) list" where
  "candidates pv =
     (case pv of None \<Rightarrow> [] | Some p \<Rightarrow> [(p, [p])]) @
     [(''less'', [''less'']), (''more'', [''more''])]"

fun targets :: "world \<Rightarrow> role \<Rightarrow> (string \<times> string list) list" where
  "targets w Source = [(''printenv'', [''printenv''])]"
| "targets w Filter = [(''grep'', argv w)]"
| "targets w Sort = [(''sort'', [''sort''])]"
| "targets w Sink = candidates (environ w ''PAGER'')"

fun attempts_ok :: "(string \<times> string list) list \<Rightarrow> event list \<Rightarrow> outcome \<Rightarrow> bool" where
  "attempts_ok [] es out = (es = [] \<and> out = Exit 1)"
| "attempts_ok ((f, a) # cs) [] out = False"
| "attempts_ok ((f, a) # cs) (e # es) out =
     (e = Sys_exec f a True \<and> es = [] \<and> out = Image f a \<or>
      e = Sys_exec f a False \<and> attempts_ok cs es out)"

text \<open>
  A stage process that fails to set up its descriptors: a \<^verbatim>\<open>dup2\<close> or a \<^verbatim>\<open>close\<close> that
  returned -1.
\<close>

fun setup_failure :: "event \<Rightarrow> bool" where
  "setup_failure (Sys_dup2 a b r) = (r = -1)"
| "setup_failure (Sys_close a r) = (r = -1)"
| "setup_failure _ = False"

definition setup_failed :: "event list \<Rightarrow> bool" where
  "setup_failed t = (filter setup_failure t \<noteq> [])"

fun needs_report :: "event \<Rightarrow> bool" where
  "needs_report (Sys_pipe r) = (r = -1)"
| "needs_report (Sys_fork ro r) = (r = -1)"
| "needs_report (Sys_dup2 a b r) = (r = -1)"
| "needs_report (Sys_close a r) = (r = -1)"
| "needs_report (Sys_wait r st) = (r = -1)"
| "needs_report (Sys_exec f a ok) = (\<not> ok)"
| "needs_report _ = False"

fun answers :: "event \<Rightarrow> event \<Rightarrow> bool" where
  "answers e (Perror m) = True"
| "answers (Sys_exec f a ok) (Sys_exec f' a' ok') = True"
| "answers _ _ = False"

fun diagnosed :: "event list \<Rightarrow> bool" where
  "diagnosed [] = True"
| "diagnosed [e] = (\<not> needs_report e)"
| "diagnosed (e # e' # es) = ((needs_report e \<longrightarrow> answers e e') \<and> diagnosed (e' # es))"

fun failed_child :: "event \<Rightarrow> bool" where
  "failed_child (Sys_wait p (Some (Exited c))) = (c \<noteq> 0)"
| "failed_child (Sys_wait p (Some (Signaled g))) = True"
| "failed_child _ = False"

fun announces :: "event \<Rightarrow> event \<Rightarrow> bool" where
  "announces (Sys_wait p (Some (Exited c))) e = (e = Printf (exit_message c p))"
| "announces (Sys_wait p (Some (Signaled g))) e = (e = Printf (signal_message g p))"
| "announces _ e = False"

text \<open>
  The event that follows the first report of a failed child is the diagnostic for that
  child, written to the standard output.
\<close>

fun first_failure_reported :: "event list \<Rightarrow> bool" where
  "first_failure_reported [] = True"
| "first_failure_reported [e] = (\<not> failed_child e)"
| "first_failure_reported (e # e' # es) =
     (if failed_child e then announces e e' else first_failure_reported (e' # es))"


subsection \<open>The descriptors of a stage\<close>

text \<open>
  The channels next to a stage, by the indices the code uses (\<^verbatim>\<open>pipes[cur-1]\<close> for its
  input, \<^verbatim>\<open>pipes[cur]\<close> for its output), and the channels that are not next to it and that
  the parent has not yet closed when it forks the stage. The flag says whether arguments
  were given.
\<close>

fun input_channel :: "bool \<Rightarrow> role \<Rightarrow> nat option" where
  "input_channel g Source = None"
| "input_channel g Filter = Some 0"
| "input_channel g Sort = Some (if g then 1 else 0)"
| "input_channel g Sink = Some (if g then 2 else 1)"

fun output_channel :: "bool \<Rightarrow> role \<Rightarrow> nat option" where
  "output_channel g Source = Some 0"
| "output_channel g Filter = Some 1"
| "output_channel g Sort = Some (if g then 2 else 1)"
| "output_channel g Sink = None"

fun bystanders :: "bool \<Rightarrow> role \<Rightarrow> nat list" where
  "bystanders g Source = [1, 2]"
| "bystanders g Filter = [2]"
| "bystanders g Sort = (if g then [] else [2])"
| "bystanders g Sink = (if g then [] else [2])"

definition wired :: "bool \<Rightarrow> role \<Rightarrow> fd_table \<Rightarrow> bool" where
  "wired g r tbl =
     ((case input_channel g r of
         None \<Rightarrow> tbl ! 0 = Some (Stream 0)
       | Some k \<Rightarrow> tbl ! 0 = Some (Chan k PIPE_IN) \<and> Some (Chan k PIPE_OUT) \<notin> set tbl) \<and>
      (case output_channel g r of
         None \<Rightarrow> tbl ! 1 = Some (Stream 1)
       | Some k \<Rightarrow> tbl ! 1 = Some (Chan k PIPE_OUT) \<and> Some (Chan k PIPE_IN) \<notin> set tbl) \<and>
      (\<forall>k \<in> set (bystanders g r).
         Some (Chan k PIPE_IN) \<in> set tbl \<and> Some (Chan k PIPE_OUT) \<in> set tbl))"

definition std_streams :: fd_table where
  "std_streams = [Some (Stream 0), Some (Stream 1), Some (Stream 2)]"


subsection \<open>The reaping loop, turn by turn\<close>

definition reap_once :: "world \<Rightarrow> state \<Rightarrow> state" where
  "reap_once w s = run [reap_body w, \<lambda>s. s\<lparr>i := i s + 1\<rparr>] s"

text \<open>
  What the body says and records for a child \<open>p\<close> that ended with status \<open>st\<close>, the
  events that saying it leaves, and the text that \<^verbatim>\<open>stdout\<close> holds afterwards.
\<close>

fun said :: "int \<Rightarrow> wait_status \<Rightarrow> int \<Rightarrow> string list" where
  "said ev (Exited c) p = (if ev = 0 \<and> c \<noteq> 0 then [exit_message c p] else [])"
| "said ev (Signaled g) p = (if ev = 0 then [signal_message g p] else [])"
| "said ev (Stopped x) p = []"

fun report :: "buffering \<Rightarrow> string \<Rightarrow> string list \<Rightarrow> event list" where
  "report m b [] = []"
| "report m b (t # ts) = Printf t # writes (sent m b t) @ report m (kept m b t) ts"

fun held :: "buffering \<Rightarrow> string \<Rightarrow> string list \<Rightarrow> string" where
  "held m b [] = b"
| "held m b (t # ts) = held m (kept m b t) ts"

fun verdict :: "int \<Rightarrow> wait_status \<Rightarrow> int" where
  "verdict ev (Exited c) = (if ev = 0 then c else ev)"
| "verdict ev st = ev"

definition judged ::
  "world \<Rightarrow> state \<Rightarrow> nat \<Rightarrow> wait_status \<Rightarrow> (nat \<times> wait_status) list \<Rightarrow> state" where
  "judged w s p st rest =
     s\<lparr>pid := int p, return_status := st, pending := rest, clock := clock s + 1,
       trace := trace s @ Sys_wait (int p) (Some st) #
                  report (stdout_mode w) (stdout_buf s) (said (exit_value s) st (int p)),
       stdout_buf := held (stdout_mode w) (stdout_buf s) (said (exit_value s) st (int p)),
       exit_value := verdict (exit_value s) st, i := i s + 1\<rparr>"

definition wait_failed :: "state \<Rightarrow> state" where
  "wait_failed s =
     s\<lparr>pid := -1, clock := clock s + 1,
       trace := trace s @ [Sys_wait (-1) None,
                  Perror ''@digenv: wait() returned unexpectedly''] @
                  writes (stdout_buf s) @ [Sys_exit 1],
       stdout_buf := [], halted := Some (Exit 1)\<rparr>"

fun reap_event :: "event \<Rightarrow> bool" where
  "reap_event (Sys_wait p st) = True"
| "reap_event (Printf m) = True"
| "reap_event (Sys_write fd t) = True"
| "reap_event (Perror m) = True"
| "reap_event (Sys_exit n) = True"
| "reap_event _ = False"

text \<open>What the loop records and prints for a list of terminations, by the body's rule.\<close>

fun verdicts :: "int \<Rightarrow> (nat \<times> wait_status) list \<Rightarrow> int" where
  "verdicts ev [] = ev"
| "verdicts ev ((p, st) # xs) = verdicts (verdict ev st) xs"

fun reports :: "int \<Rightarrow> (nat \<times> wait_status) list \<Rightarrow> string list" where
  "reports ev [] = []"
| "reports ev ((p, st) # xs) = said ev st (int p) @ reports (verdict ev st) xs"


subsection \<open>The whole run\<close>

text \<open>The builder has completed when the process is still running after it: the parent.\<close>

definition built :: "world \<Rightarrow> bool" where
  "built w = (halted (builder w (init w)) = None)"

definition reaped :: "world \<Rightarrow> state" where
  "reaped w = reap_loop w ((builder w (init w))\<lparr>i := 0\<rparr>)"


subsection \<open>What the builder establishes\<close>

fun builder_event :: "event \<Rightarrow> bool" where
  "builder_event (Sys_pipe r) = (r = 0)"
| "builder_event (Sys_fork ro p) = (0 < p)"
| "builder_event (Sys_close a r) = (r = 0)"
| "builder_event _ = False"

definition stage_ok :: "world \<Rightarrow> role \<Rightarrow> state \<Rightarrow> bool" where
  "stage_ok w r s =
     ((halted s = Some (Exit 1) \<or>
       (\<exists>f a. halted s = Some (Image f a) \<and> (f, a) \<in> set (targets w r))) \<and>
      (\<forall>e \<in> set (after_fork0 (trace s)). \<not> builder_call e) \<and>
      cur s = int (length (spawned (trace s))) \<and>
      (r = Filter \<longrightarrow> 1 < length (argv w) \<and>
         (\<forall>f a ok. Sys_exec f a ok \<in> set (trace s) \<longrightarrow> f = ''grep'' \<and> a = argv w)))"

text \<open>
  What a stage process executes: nothing when it failed to set up its descriptors, and
  otherwise its targets in order, up to the first that succeeds. The last stage reads
  \<^verbatim>\<open>PAGER\<close> first, and says on the error stream that no pager could be executed.
\<close>

definition stage_exec :: "world \<Rightarrow> role \<Rightarrow> state \<Rightarrow> bool" where
  "stage_exec w r s =
     (\<exists>out. halted s = Some out \<and>
        (if setup_failed (trace s) then out = Exit 1 \<and> filter is_exec (trace s) = []
         else attempts_ok (targets w r) (filter is_exec (trace s)) out \<and>
              (r = Sink \<longrightarrow>
                 Getenv ''PAGER'' (environ w ''PAGER'') \<in> set (trace s) \<and>
                 (out = Exit 1 \<longrightarrow>
                    stderr_text (trace s) = [''Problem with call to pager'']))))"

definition parent_ok :: "world \<Rightarrow> state \<Rightarrow> bool" where
  "parent_ok w s =
     (spawned (trace s) = topology w \<and> cur s = int (length (topology w)) \<and>
      exit_value s = 0 \<and> pending s = terminations w \<and> stdout_buf s = [] \<and>
      (\<forall>e \<in> set (trace s). builder_event e))"

definition halted_ok :: "world \<Rightarrow> state \<Rightarrow> bool" where
  "halted_ok w s =
     (diagnosed (trace s) \<and>
      (\<forall>p st. Sys_wait p st \<notin> set (trace s)) \<and>
      (\<forall>r. Sys_fork r 0 \<in> set (trace s) \<longrightarrow> stage_ok w r s \<and> stage_exec w r s) \<and>
      (\<not> 1 < length (argv w) \<longrightarrow> (\<forall>p. Sys_fork Filter p \<notin> set (trace s))))"

definition builder_post :: "world \<Rightarrow> state \<Rightarrow> bool" where
  "builder_post w s = (if halted s = None then parent_ok w s else halted_ok w s)"

definition descriptors_post :: "world \<Rightarrow> state \<Rightarrow> bool" where
  "descriptors_post w s =
     (\<forall>r f a. Sys_fork r 0 \<in> set (trace s) \<longrightarrow> halted s = Some (Image f a) \<longrightarrow>
        wired (1 < length (argv w)) r (fds s))"


text \<open>
  The text that reached descriptor 1 and the text still held are together the text given
  to \<^verbatim>\<open>printf\<close>, and a process that has ended holds none.
\<close>

definition flushing :: "state \<Rightarrow> bool" where
  "flushing s =
     (concat (written (trace s)) @ stdout_buf s = concat (stdout_text (trace s)) \<and>
      (halted s \<noteq> None \<longrightarrow> stdout_buf s = []))"

text \<open>What holds between two turns of the loop.\<close>

definition reporting :: "state \<Rightarrow> bool" where
  "reporting s =
     (diagnosed (trace s) \<and> first_failure_reported (trace s) \<and>
      (halted s = None \<and> exit_value s \<noteq> 0 \<longrightarrow> (\<exists>e \<in> set (trace s). failed_child e)))"


subsection \<open>Sample runs\<close>

text \<open>
  The parent of a run without arguments in which nothing fails, started from a terminal;
  \<^verbatim>\<open>fork\<close> is the third, fourth and seventh system call of that run, so the children are
  103, 104 and 107.
\<close>

definition plain :: world where
  "plain =
     \<lparr>argv = [''digenv''], environ = (\<lambda>n. None),
      inherited = [Some (Stream 0), Some (Stream 1), Some (Stream 2)],
      stdout_mode = Line_buffered 1024,
      fails = (\<lambda>n. False), fork_ret = (\<lambda>n. 100 + n),
      terminations = [(103, Exited 0), (104, Exited 0), (107, Exited 0)]\<rparr>"

text \<open>The same run with one argument: four children, 103, 104, 107 and 110.\<close>

definition with_args :: world where
  "with_args =
     plain\<lparr>argv := [''digenv'', ''PATH''],
           terminations := [(103, Exited 0), (104, Exited 0), (107, Exited 0), (110, Exited 0)]\<rparr>"

text \<open>The stage processes: the run in which the given \<^verbatim>\<open>fork\<close> returns 0.\<close>

definition source_run :: world where
  "source_run = plain\<lparr>fork_ret := (\<lambda>n. if n = 3 then 0 else 100 + n)\<rparr>"

definition filter_run :: world where
  "filter_run = with_args\<lparr>fork_ret := (\<lambda>n. if n = 4 then 0 else 100 + n)\<rparr>"

text \<open>
  The last stage of the run without arguments, with \<^verbatim>\<open>PAGER\<close> set to \<^verbatim>\<open>cat\<close>; and with
  \<^verbatim>\<open>PAGER\<close> set to the empty string, where the first \<^verbatim>\<open>execlp\<close> (the tenth system call)
  fails.
\<close>

definition sink_run :: world where
  "sink_run =
     plain\<lparr>environ := (\<lambda>n. if n = ''PAGER'' then Some ''cat'' else None),
           fork_ret := (\<lambda>n. if n = 7 then 0 else 100 + n)\<rparr>"


text \<open>
  Runs of the parent in which children fail: the second child exits with 3 and the third is
  killed by signal 9; the first two children exit with 1 and with 2; the first child is
  killed by signal 9 and the others exit with 0.
\<close>


definition no_pager_run :: world where
  "no_pager_run = sink_run\<lparr>fails := (\<lambda>n. 10 \<le> n)\<rparr>"

definition filter_setup_fails :: world where
  "filter_setup_fails = filter_run\<lparr>fails := (\<lambda>n. n = 5)\<rparr>"

definition late_failure :: world where
  "late_failure =
     plain\<lparr>terminations := [(103, Exited 0), (104, Exited 3), (107, Signaled 9)]\<rparr>"

definition two_failures :: world where
  "two_failures =
     plain\<lparr>terminations := [(103, Exited 1), (104, Exited 2), (107, Exited 0)]\<rparr>"

definition signalled :: world where
  "signalled =
     plain\<lparr>terminations := [(103, Signaled 9), (104, Exited 0), (107, Exited 0)]\<rparr>"

text \<open>The run in which the first \<^verbatim>\<open>fork\<close>, the third system call, fails.\<close>

definition fork_fails :: world where
  "fork_fails = plain\<lparr>fails := (\<lambda>n. n = 3)\<rparr>"


section \<open>Properties\<close>


subsection \<open>Running the statements one at a time\<close>

text \<open>
  The rules below rewrite \<open>run (c # cs) s\<close> for each form of statement \<open>c\<close> that occurs in
  \<^verbatim>\<open>main\<close>, a system call together with the \<^verbatim>\<open>check_sys_return\<close> that follows it: the
  result is the halted state when the call fails, and the rest of the list run on the
  new state otherwise.
\<close>

lemma writes_Nil [simp]: "writes [] = []"
  by (simp add: writes_def)

lemma fork_not_written [simp]: "Sys_fork r p \<notin> set (writes t)"
  by (simp add: writes_def)

lemma run_dead: "halted s \<noteq> None \<Longrightarrow> run cs s = s"
  by (cases cs) auto

lemma run_append: "run (cs @ ds) s = run ds (run cs s)"
  by (induction cs arbitrary: s) (auto simp: run_dead)

lemma run_cong: "s = s' \<Longrightarrow> run cs s = run cs s'"
  by simp

lemma Perror_cong: "Perror m = Perror m"
  by simp

lemmas exec_congs = run_cong Perror_cong

lemma step_nested: "run ds (run cs s) = run (cs @ ds) s"
  by (simp add: run_append)

lemma step_block: "run (run ds # cs) s = run (ds @ cs) s"
  by (simp add: run_append run_dead)

lemma step_cond:
  "halted s = None \<Longrightarrow>
   run ((\<lambda>s. if b s then run (ds s) s else s) # cs) s =
     (if b s then run (ds s @ cs) s else run cs s)"
  by (simp add: run_append)

lemma step_declarations:
  "halted s = None \<Longrightarrow>
   run (declarations w # cs) s =
     run cs (s\<lparr>grep := (if int (length (argv w)) > 1 then 1 else 0), exit_value := 0,
               cur := 0\<rparr>)"
  by (simp add: declarations_def)

lemma step_cur:
  "halted s = None \<Longrightarrow> run ((\<lambda>s. s\<lparr>cur := f s\<rparr>) # cs) s = run cs (s\<lparr>cur := f s\<rparr>)"
  by simp

lemma step_i:
  "halted s = None \<Longrightarrow> run ((\<lambda>s. s\<lparr>i := f s\<rparr>) # cs) s = run cs (s\<lparr>i := f s\<rparr>)"
  by simp

lemma pipe_loop_dead: "halted s \<noteq> None \<Longrightarrow> pipe_loop w s = s"
  by (cases "halted s") (simp_all add: pipe_loop.simps [of w s])

lemma run_alive: "halted s = None \<Longrightarrow> run (c # cs) s = run cs (c s)"
  by simp

lemma step_pipe_loop:
  assumes "halted s = None" and "i s < 3"
  shows "run (pipe_loop w # cs) s =
     run ((\<lambda>s. sys_return_gets (pipe w (nat (i s))) s) #
          (\<lambda>s. check_sys_return (sys_return s) ''Error when creating pipe'' s) #
          (\<lambda>s. s\<lparr>i := i s + 1\<rparr>) # pipe_loop w # cs) s"
proof -
  let ?p = "\<lambda>s. sys_return_gets (pipe w (nat (i s))) s"
  let ?c = "\<lambda>s. check_sys_return (sys_return s) ''Error when creating pipe'' s"
  let ?n = "\<lambda>s. s\<lparr>i := i s + 1\<rparr>"
  define x where "x = run [?p, ?c, ?n] s"
  have "run [pipe_body w, ?n] s = run ([?p, ?c] @ [?n]) s"
    unfolding pipe_body_def by (rule step_block)
  then have body: "run [pipe_body w, ?n] s = x"
    by (simp only: append.simps x_def)
  have "pipe_loop w s = pipe_loop w (run [pipe_body w, ?n] s)"
    using assms by (subst pipe_loop.simps) (simp only: simp_thms if_True)
  then have loop: "pipe_loop w s = pipe_loop w x"
    by (simp only: body)
  have "run (pipe_loop w # cs) s = run cs (pipe_loop w s)"
    using assms(1) by (rule run_alive)
  also have "\<dots> = run cs (pipe_loop w x)"
    using loop by (rule arg_cong)
  also have "\<dots> = run (pipe_loop w # cs) x"
  proof (cases "halted x")
    case None
    then show ?thesis by (rule run_alive [symmetric])
  next
    case (Some a)
    then show ?thesis by (simp add: pipe_loop_dead run_dead)
  qed
  also have "\<dots> = run ([?p, ?c, ?n] @ pipe_loop w # cs) s"
    by (simp only: run_append x_def)
  finally show ?thesis
    by (simp only: append.simps)
qed

lemma step_pipe_loop_end:
  "halted s = None \<Longrightarrow> \<not> i s < 3 \<Longrightarrow> run (pipe_loop w # cs) s = run cs s"
  by (simp add: pipe_loop.simps [of w s])

lemma step_pipe:
  "halted s = None \<Longrightarrow>
   run ((\<lambda>s. sys_return_gets (pipe w (k s)) s) # (\<lambda>s. check_sys_return (sys_return s) m s) # cs) s =
     (if fails w (clock s)
        then s\<lparr>sys_return := -1, clock := clock s + 1,
               trace := trace s @ [Sys_pipe (-1), Perror m] @
                 writes (stdout_buf s) @ [Sys_exit 1],
               stdout_buf := [], halted := Some (Exit 1)\<rparr>
      else run cs (s\<lparr>sys_return := 0, clock := clock s + 1, trace := trace s @ [Sys_pipe 0],
             pipes := (pipes s)
                     [k s := [int (fst (alloc (Chan (k s) PIPE_IN) (fds s))),
                            int (fst (alloc (Chan (k s) PIPE_OUT)
                                   (snd (alloc (Chan (k s) PIPE_IN) (fds s)))))]],
             fds := snd (alloc (Chan (k s) PIPE_OUT) (snd (alloc (Chan (k s) PIPE_IN) (fds s))))\<rparr>))"
  by (auto simp add: sys_return_gets_def pipe_def emit_def tick_def check_sys_return_def perror_def
      exit_def run_dead
      intro!: arg_cong [where f = "run cs"] state.equality)

lemma step_fork:
  "halted s = None \<Longrightarrow>
   run (pid_gets (fork w r) # (\<lambda>s. check_sys_return (pid s) m s) # cs) s =
     (if fails w (clock s)
        then s\<lparr>pid := -1, clock := clock s + 1,
               trace := trace s @ [Sys_fork r (-1), Perror m] @
                 writes (stdout_buf s) @ [Sys_exit 1],
               stdout_buf := [], halted := Some (Exit 1)\<rparr>
      else if fork_ret w (clock s) = 0
        then run cs (s\<lparr>pid := 0, pending := [], clock := clock s + 1,
               trace := trace s @ [Sys_fork r 0]\<rparr>)
      else run cs (s\<lparr>pid := int (fork_ret w (clock s)), clock := clock s + 1,
             trace := trace s @ [Sys_fork r (int (fork_ret w (clock s)))]\<rparr>))"
  by (auto simp add: pid_gets_def fork_def emit_def tick_def check_sys_return_def perror_def
      exit_def run_dead
      intro!: arg_cong [where f = "run cs"] state.equality)

lemma step_dup2:
  "halted s = None \<Longrightarrow>
   run ((\<lambda>s. sys_return_gets (dup2 w (a s) b) s) # (\<lambda>s. check_sys_return (sys_return s) m s) # cs) s =
     (if fails w (clock s) \<or> \<not> is_open (a s) (fds s) \<or> b < 0
        then s\<lparr>sys_return := -1, clock := clock s + 1,
               trace := trace s @ [Sys_dup2 (a s) b (-1), Perror m] @
                 writes (stdout_buf s) @ [Sys_exit 1],
               stdout_buf := [], halted := Some (Exit 1)\<rparr>
      else run cs (s\<lparr>sys_return := b, clock := clock s + 1,
             trace := trace s @ [Sys_dup2 (a s) b b],
             fds := dup_table (a s) b (fds s)\<rparr>))"
  by (auto simp add: sys_return_gets_def dup2_def emit_def tick_def check_sys_return_def perror_def
      exit_def run_dead
      intro!: arg_cong [where f = "run cs"] state.equality)

lemma step_close:
  "halted s = None \<Longrightarrow>
   run ((\<lambda>s. sys_return_gets (close w (a s)) s) # (\<lambda>s. check_sys_return (sys_return s) m s) # cs) s =
     (if fails w (clock s) \<or> \<not> is_open (a s) (fds s)
        then s\<lparr>sys_return := -1, clock := clock s + 1,
               trace := trace s @ [Sys_close (a s) (-1), Perror m] @
                 writes (stdout_buf s) @ [Sys_exit 1],
               stdout_buf := [], halted := Some (Exit 1)\<rparr>
      else run cs (s\<lparr>sys_return := 0, clock := clock s + 1,
             trace := trace s @ [Sys_close (a s) 0],
             fds := (fds s)[nat (a s) := None]\<rparr>))"
  by (auto simp add: sys_return_gets_def close_def emit_def tick_def check_sys_return_def perror_def
      exit_def run_dead
      intro!: arg_cong [where f = "run cs"] state.equality)

lemma step_execvp:
  "halted s = None \<Longrightarrow>
   run (call (execvp w f a) # cs) s =
     (if fails w (clock s)
        then run cs (s\<lparr>clock := clock s + 1, trace := trace s @ [Sys_exec f a False]\<rparr>)
      else s\<lparr>clock := clock s + 1, trace := trace s @ [Sys_exec f a True],
             stdout_buf := [], halted := Some (Image f a)\<rparr>)"
  by (auto simp add: call_def execvp_def emit_def tick_def run_dead
      intro!: arg_cong [where f = "run cs"] state.equality)

lemma step_execlp:
  "halted s = None \<Longrightarrow>
   run (call (execlp w f a) # cs) s =
     (if fails w (clock s)
        then run cs (s\<lparr>clock := clock s + 1, trace := trace s @ [Sys_exec f a False]\<rparr>)
      else s\<lparr>clock := clock s + 1, trace := trace s @ [Sys_exec f a True],
             stdout_buf := [], halted := Some (Image f a)\<rparr>)"
  by (auto simp add: call_def execlp_def execvp_def emit_def tick_def run_dead
      intro!: arg_cong [where f = "run cs"] state.equality)

lemma step_getenv:
  "halted s = None \<Longrightarrow>
   run (pager_gets (getenv w n) # cs) s =
     run cs (s\<lparr>pager := environ w n, trace := trace s @ [Getenv n (environ w n)]\<rparr>)"
  by (auto simp add: pager_gets_def getenv_def emit_def run_dead
      intro!: arg_cong [where f = "run cs"] state.equality)

lemma step_perror:
  "halted s = None \<Longrightarrow> run (perror m # cs) s = run cs (s\<lparr>trace := trace s @ [Perror m]\<rparr>)"
  by (auto simp add: perror_def emit_def run_dead
      intro!: arg_cong [where f = "run cs"] state.equality)

lemma step_printf:
  "halted s = None \<Longrightarrow>
   run (printf w m # cs) s =
     run cs (s\<lparr>trace := trace s @ Printf m # writes (sent (stdout_mode w) (stdout_buf s) m),
              stdout_buf := kept (stdout_mode w) (stdout_buf s) m\<rparr>)"
  by (auto simp add: printf_def emit_def run_dead
      intro!: arg_cong [where f = "run cs"] state.equality)

lemma step_exit:
  "halted s = None \<Longrightarrow>
   run (exit n # cs) s =
     s\<lparr>trace := trace s @ writes (stdout_buf s) @ [Sys_exit n], stdout_buf := [],
       halted := Some (Exit n)\<rparr>"
  by (auto simp add: exit_def emit_def run_dead
      intro!: arg_cong [where f = "run cs"] state.equality)

lemma step_append_Cons: "run ((c # cs) @ ds) s = run (c # (cs @ ds)) s"
  by simp

lemma step_append_Nil: "run ([] @ ds) s = run ds s"
  by simp

lemma step_append_Cons2: "run (c # ((d # cs) @ ds)) s = run (c # d # (cs @ ds)) s"
  by simp

lemma step_append_Nil2: "run (c # ([] @ ds)) s = run (c # ds) s"
  by simp

lemmas steps = STDIN_FILENO_def STDOUT_FILENO_def PIPE_IN_def PIPE_OUT_def step_nested step_block step_append_Cons step_append_Nil step_append_Cons2
  step_append_Nil2 step_cond
  step_declarations step_cur step_i step_pipe_loop step_pipe_loop_end
  step_pipe step_fork step_dup2 step_close step_execvp step_execlp step_getenv step_perror
  step_printf step_exit

lemmas builder_defs = builder_def create_pipes_def pipe_body_def
  spawn_printenv_def printenv_stage_def spawn_grep_def grep_stage_def spawn_sort_def
  sort_stage_def spawn_pager_def pager_stage_def check_pager_def

lemma halted_init: "halted (init w) = None"
  by (simp add: init_def)

declare run.simps(2) [simp del]


subsection \<open>The builder\<close>

lemma ifI: "(c \<Longrightarrow> P x) \<Longrightarrow> (\<not> c \<Longrightarrow> P y) \<Longrightarrow> P (if c then x else y)"
  by simp

lemma grep_flag: "((if a then (1::int) else 0) \<noteq> 0) = a"
  by simp

lemma builder_facts: "builder_post w (builder w (init w))"
  unfolding builder_defs
  apply (auto simp add: steps halted_init init_def grep_flag
      intro!: ifI [where P = "builder_post w"] split del: if_split cong: exec_congs)
  apply (simp_all add: builder_post_def parent_ok_def halted_ok_def stage_ok_def stage_exec_def
      setup_failed_def spawned_def topology_def after_fork0_def stderr_text_def candidates_def
      writes_def)
  apply (auto split: option.splits)
  done


subsection \<open>One turn of the reaping loop\<close>

lemma reap_loop_unfold:
  "reap_loop w s = (if halted s = None \<and> i s < cur s then reap_loop w (reap_once w s) else s)"
  unfolding reap_once_def by (rule reap_loop.simps)

lemma step_wait:
  "halted s = None \<Longrightarrow>
   run (pid_gets (wait w) # (\<lambda>s. check_sys_return (pid s) m s) # cs) s =
     (if fails w (clock s) \<or> pending s = []
        then s\<lparr>pid := -1, clock := clock s + 1,
               trace := trace s @ [Sys_wait (-1) None, Perror m] @
                 writes (stdout_buf s) @ [Sys_exit 1],
               stdout_buf := [], halted := Some (Exit 1)\<rparr>
      else run cs (s\<lparr>pid := int (fst (hd (pending s))),
             return_status := snd (hd (pending s)), pending := tl (pending s),
             clock := clock s + 1,
             trace := trace s @
               [Sys_wait (int (fst (hd (pending s)))) (Some (snd (hd (pending s))))]\<rparr>))"
  by (cases "pending s")
    (auto simp add: pid_gets_def wait_def emit_def tick_def check_sys_return_def perror_def
      exit_def run_dead run.simps
      intro!: arg_cong [where f = "run cs"] state.equality)

lemma reap_once_flat:
  "reap_once w s =
     run [pid_gets (wait w),
          \<lambda>s. check_sys_return (pid s) ''@digenv: wait() returned unexpectedly'' s,
          \<lambda>s. if WIFEXITED (return_status s)
               then (let child_status = WEXITSTATUS (return_status s)
                     in if 0 = exit_value s \<and> 0 \<noteq> child_status
                        then run [\<lambda>s. printf w (exit_message child_status (pid s)) s,
                                  \<lambda>s. s\<lparr>exit_value := child_status\<rparr>] s
                        else s)
               else (if 0 = exit_value s \<and> WIFSIGNALED (return_status s)
                     then (let child_status = WTERMSIG (return_status s)
                           in run [\<lambda>s. printf w (signal_message child_status (pid s)) s,
                                   \<lambda>s. expr_stmt (exit_value s = child_status) s] s)
                     else s),
          \<lambda>s. s\<lparr>i := i s + 1\<rparr>] s"
  unfolding reap_once_def reap_body_def by (simp only: step_block append.simps)

lemma reap_once_ok:
  assumes "halted s = None" and "\<not> fails w (clock s)" and "pending s = (p, st) # rest"
  shows "reap_once w s = judged w s p st rest"
  unfolding reap_once_flat
  apply (simp only: step_wait [OF assms(1)])
  apply (simp add: assms cong: run_cong Perror_cong)
  apply (cases st)
    apply (simp_all add: assms run_alive run.simps(1) printf_def emit_def expr_stmt_def
      judged_def Let_def cong: run_cong)
  done

lemma reap_once_fail:
  assumes "halted s = None" and "fails w (clock s) \<or> pending s = []"
  shows "reap_once w s = wait_failed s"
  unfolding reap_once_flat
  apply (simp only: step_wait [OF assms(1)])
  using assms(2) apply (simp add: wait_failed_def cong: run_cong Perror_cong)
  done

text \<open>An invariant of the loop holds when the loop has ended.\<close>

lemma reap_loop_invariant:
  assumes start: "I s"
    and ok: "\<And>s p st rest. I s \<Longrightarrow> halted s = None \<Longrightarrow> i s < cur s \<Longrightarrow>
               \<not> fails w (clock s) \<Longrightarrow> pending s = (p, st) # rest \<Longrightarrow> I (judged w s p st rest)"
    and fail: "\<And>s. I s \<Longrightarrow> halted s = None \<Longrightarrow> i s < cur s \<Longrightarrow>
               fails w (clock s) \<or> pending s = [] \<Longrightarrow> I (wait_failed s)"
  shows "I (reap_loop w s)"
  using assms
proof (induction w s rule: reap_loop.induct)
  case (1 w s)
  note inv = "1.prems"(1) and ok = "1.prems"(2) and fail = "1.prems"(3)
  show ?case
  proof (cases "halted s = None \<and> i s < cur s")
    case False
    then have "reap_loop w s = s"
      by (subst reap_loop_unfold) auto
    with inv show ?thesis by simp
  next
    case True
    then have alive: "halted s = None" and more: "i s < cur s" by simp_all
    have unfold: "reap_loop w s = reap_loop w (reap_once w s)"
      using True by (subst reap_loop_unfold) simp
    have "I (reap_once w s)"
    proof (cases "fails w (clock s) \<or> pending s = []")
      case True
      then have "reap_once w s = wait_failed s"
        by (rule reap_once_fail [OF alive])
      moreover have "I (wait_failed s)"
        using inv alive more True by (rule fail)
      ultimately show ?thesis by simp
    next
      case False
      then obtain p st rest where pend: "pending s = (p, st) # rest"
        by (cases "pending s") auto
      from False have nofail: "\<not> fails w (clock s)" by simp
      then have "reap_once w s = judged w s p st rest"
        using pend by (rule reap_once_ok [OF alive])
      moreover have "I (judged w s p st rest)"
        using inv alive more nofail pend by (rule ok)
      ultimately show ?thesis by simp
    qed
    then have "I (run [reap_body w, \<lambda>s. s\<lparr>i := i s + 1\<rparr>] s)"
      unfolding reap_once_def .
    then have "I (reap_loop w (run [reap_body w, \<lambda>s. s\<lparr>i := i s + 1\<rparr>] s))"
      using ok fail by (rule "1.IH" [OF True])
    then show ?thesis
      unfolding unfold reap_once_def .
  qed
qed


subsection \<open>The whole run\<close>

lemma report_events: "e \<in> set (report m b ts) \<Longrightarrow> reap_event e"
  by (induction ts arbitrary: b) (auto simp: writes_def split: if_splits)

lemma reap_loop_trace:
  "\<exists>es. trace (reap_loop w s) = trace s @ es \<and> (\<forall>e \<in> set es. reap_event e)"
  by (rule reap_loop_invariant
      [where I = "\<lambda>s'. \<exists>es. trace s' = trace s @ es \<and> (\<forall>e \<in> set es. reap_event e)"])
    (auto simp: judged_def wait_failed_def writes_def dest: report_events)

lemma main_halted:
  assumes "\<not> built w"
  shows "main w = builder w (init w)"
proof -
  have "main w = run [reaper w, \<lambda>s. exit (exit_value s) s] (builder w (init w))"
    unfolding main_def by (rule run_alive [OF halted_init])
  also have "\<dots> = builder w (init w)"
    using assms by (intro run_dead) (simp add: built_def)
  finally show ?thesis .
qed

lemma reaper_alive: "halted s = None \<Longrightarrow> reaper w s = reap_loop w (s\<lparr>i := 0\<rparr>)"
  by (simp add: reaper_def run_alive)

lemma main_built:
  assumes "built w"
  shows "main w = (if halted (reaped w) = None then exit (exit_value (reaped w)) (reaped w)
             else reaped w)"
proof -
  have alive: "halted (builder w (init w)) = None"
    using assms by (simp add: built_def)
  have "main w = run [reaper w, \<lambda>s. exit (exit_value s) s] (builder w (init w))"
    unfolding main_def by (rule run_alive [OF halted_init])
  also have "\<dots> = run [\<lambda>s. exit (exit_value s) s] (reaped w)"
    using alive by (simp add: run_alive reaper_alive reaped_def)
  finally show ?thesis
    by (simp add: run.simps)
qed

lemma main_trace_built:
  assumes "built w"
  shows "\<exists>es. trace (main w) = trace (builder w (init w)) @ es \<and> (\<forall>e \<in> set es. reap_event e)"
proof -
  obtain es where es: "trace (reaped w) = trace (builder w (init w)) @ es"
    "\<forall>e \<in> set es. reap_event e"
    using reap_loop_trace [of w "(builder w (init w))\<lparr>i := 0\<rparr>"]
    by (auto simp: reaped_def)
  show ?thesis
  proof (cases "halted (reaped w) = None")
    case True
    then have "trace (main w) =
        trace (builder w (init w)) @
          (es @ writes (stdout_buf (reaped w)) @ [Sys_exit (exit_value (reaped w))])"
      using assms es by (simp add: main_built exit_def)
    moreover have "\<forall>e \<in> set (es @ writes (stdout_buf (reaped w)) @
        [Sys_exit (exit_value (reaped w))]). reap_event e"
      using es by (simp add: writes_def)
    ultimately show ?thesis by blast
  next
    case False
    then show ?thesis using assms es by (auto simp: main_built)
  qed
qed

lemma parent_facts: "built w \<Longrightarrow> parent_ok w (builder w (init w))"
  using builder_facts [of w] by (simp add: builder_post_def built_def)

lemma halted_facts: "\<not> built w \<Longrightarrow> halted_ok w (main w)"
  using builder_facts [of w] by (simp add: builder_post_def built_def main_halted)

lemma parent_trace:
  assumes "built w" and "e \<in> set (trace (main w))"
  shows "builder_event e \<or> reap_event e"
  using main_trace_built [OF assms(1)] parent_facts [OF assms(1)] assms(2)
  by (auto simp: parent_ok_def)

lemma stage_run:
  assumes "Sys_fork r 0 \<in> set (trace (main w))"
  shows "\<not> built w \<and> stage_ok w r (main w) \<and> stage_exec w r (main w)"
proof -
  have "\<not> built w"
    using parent_trace [OF _ assms] by auto
  then show ?thesis
    using halted_facts [of w] assms by (simp add: halted_ok_def)
qed








subsection \<open>Sample runs\<close>


lemma plain_trace:
  "trace (main plain) =
     [Sys_pipe 0, Sys_pipe 0, Sys_pipe 0, Sys_fork Source 103, Sys_fork Sort 104,
      Sys_close 3 0, Sys_close 4 0, Sys_fork Sink 107, Sys_close 5 0, Sys_close 6 0,
      Sys_wait 103 (Some (Exited 0)), Sys_wait 104 (Some (Exited 0)),
      Sys_wait 107 (Some (Exited 0)), Sys_exit 0]"
  by code_simp

lemma with_args_built: "built with_args"
  unfolding built_def by code_simp

lemma with_args_trace:
  "trace (main with_args) =
     [Sys_pipe 0, Sys_pipe 0, Sys_pipe 0, Sys_fork Source 103, Sys_fork Filter 104,
      Sys_close 3 0, Sys_close 4 0, Sys_fork Sort 107, Sys_close 5 0, Sys_close 6 0,
      Sys_fork Sink 110, Sys_close 7 0, Sys_close 8 0,
      Sys_wait 103 (Some (Exited 0)), Sys_wait 104 (Some (Exited 0)),
      Sys_wait 107 (Some (Exited 0)), Sys_wait 110 (Some (Exited 0)), Sys_exit 0]"
  by code_simp

lemma source_run_trace:
  "trace (main source_run) =
     [Sys_pipe 0, Sys_pipe 0, Sys_pipe 0, Sys_fork Source 0, Sys_dup2 4 1 1, Sys_close 3 0,
      Sys_close 4 0, Sys_exec ''printenv'' [''printenv''] True]"
  by code_simp

lemma filter_run_trace:
  "trace (main filter_run) =
     [Sys_pipe 0, Sys_pipe 0, Sys_pipe 0, Sys_fork Source 103, Sys_fork Filter 0,
      Sys_dup2 3 0 0, Sys_close 4 0, Sys_dup2 6 1 1, Sys_close 5 0,
      Sys_exec ''grep'' [''digenv'', ''PATH''] True]"
  by code_simp

lemma filter_run_argv: "argv filter_run = [''digenv'', ''PATH'']"
  by code_simp

lemma sink_run_trace:
  "trace (main sink_run) =
     [Sys_pipe 0, Sys_pipe 0, Sys_pipe 0, Sys_fork Source 103, Sys_fork Sort 104,
      Sys_close 3 0, Sys_close 4 0, Sys_fork Sink 0, Sys_dup2 5 0 0, Sys_close 6 0,
      Getenv ''PAGER'' (Some ''cat''), Printf ''Found PAGER: cat'',
      Sys_exec ''cat'' [''cat''] True]"
  by code_simp

lemma sink_run_pager: "environ sink_run ''PAGER'' = Some ''cat''"
  by code_simp




lemma sink_run_halted: "halted (main sink_run) = Some (Image ''cat'' [''cat''])"
  by code_simp







lemma filter_setup_fails_trace:
  "trace (main filter_setup_fails) =
     [Sys_pipe 0, Sys_pipe 0, Sys_pipe 0, Sys_fork Source 103, Sys_fork Filter 0,
      Sys_dup2 3 0 (-1), Perror ''@grep: Error when duplicating read side of pipe'',
      Sys_exit 1]"
  by code_simp



subsection \<open>The loop when no call fails\<close>

lemma stdout_text_append: "stdout_text (xs @ ys) = stdout_text xs @ stdout_text ys"
  by (simp add: stdout_text_def)

lemma stdout_text_Cons: "stdout_text (e # es) = stdout_of e @ stdout_text es"
  by (simp add: stdout_text_def)

lemma stdout_text_writes: "stdout_text (writes t) = []"
  by (simp add: stdout_text_def writes_def)

lemma stdout_text_report: "stdout_text (report m b ts) = ts"
  by (induction ts arbitrary: b)
    (simp_all add: stdout_text_append stdout_text_Cons stdout_text_writes, simp add: stdout_text_def)

lemma reap_loop_runs:
  assumes "halted s = None" and "\<forall>k. \<not> fails w k"
    and "nat (cur s - i s) \<le> length (pending s)"
  shows "halted (reap_loop w s) = None \<and>
         exit_value (reap_loop w s) =
           verdicts (exit_value s) (take (nat (cur s - i s)) (pending s)) \<and>
         stdout_text (trace (reap_loop w s)) =
           stdout_text (trace s) @ reports (exit_value s) (take (nat (cur s - i s)) (pending s))"
  using assms
proof (induction w s rule: reap_loop.induct)
  case (1 w s)
  note alive = "1.prems"(1) and quiet = "1.prems"(2) and enough = "1.prems"(3)
  show ?case
  proof (cases "i s < cur s")
    case False
    then have "reap_loop w s = s"
      by (subst reap_loop_unfold) simp
    moreover have "nat (cur s - i s) = 0"
      using False by simp
    ultimately show ?thesis
      using alive by simp
  next
    case True
    then have turns: "nat (cur s - i s) = Suc (nat (cur s - (i s + 1)))"
      by simp
    then obtain p st rest where pend: "pending s = (p, st) # rest"
      using enough by (cases "pending s") auto
    have once: "reap_once w s = judged w s p st rest"
      using alive quiet pend by (simp add: reap_once_ok)
    have unfold: "reap_loop w s = reap_loop w (judged w s p st rest)"
      using alive True once by (subst reap_loop_unfold) simp
    have next_alive: "halted (judged w s p st rest) = None"
      using alive by (simp add: judged_def)
    have next_enough:
      "nat (cur (judged w s p st rest) - i (judged w s p st rest)) \<le> length (pending (judged w s p st rest))"
      using enough turns pend by (simp add: judged_def)
    have "halted (reap_loop w (run [reap_body w, \<lambda>s. s\<lparr>i := i s + 1\<rparr>] s)) = None \<and>
         exit_value (reap_loop w (run [reap_body w, \<lambda>s. s\<lparr>i := i s + 1\<rparr>] s)) =
           verdicts (exit_value (run [reap_body w, \<lambda>s. s\<lparr>i := i s + 1\<rparr>] s))
             (take (nat (cur (run [reap_body w, \<lambda>s. s\<lparr>i := i s + 1\<rparr>] s) -
                         i (run [reap_body w, \<lambda>s. s\<lparr>i := i s + 1\<rparr>] s)))
                (pending (run [reap_body w, \<lambda>s. s\<lparr>i := i s + 1\<rparr>] s))) \<and>
         stdout_text (trace (reap_loop w (run [reap_body w, \<lambda>s. s\<lparr>i := i s + 1\<rparr>] s))) =
           stdout_text (trace (run [reap_body w, \<lambda>s. s\<lparr>i := i s + 1\<rparr>] s)) @
           reports (exit_value (run [reap_body w, \<lambda>s. s\<lparr>i := i s + 1\<rparr>] s))
             (take (nat (cur (run [reap_body w, \<lambda>s. s\<lparr>i := i s + 1\<rparr>] s) -
                         i (run [reap_body w, \<lambda>s. s\<lparr>i := i s + 1\<rparr>] s)))
                (pending (run [reap_body w, \<lambda>s. s\<lparr>i := i s + 1\<rparr>] s)))"
      using alive True next_alive quiet next_enough
      by (intro "1.IH") (simp_all add: once [unfolded reap_once_def])
    then have ih: "halted (reap_loop w (judged w s p st rest)) = None \<and>
         exit_value (reap_loop w (judged w s p st rest)) =
           verdicts (exit_value (judged w s p st rest))
             (take (nat (cur (judged w s p st rest) - i (judged w s p st rest)))
                (pending (judged w s p st rest))) \<and>
         stdout_text (trace (reap_loop w (judged w s p st rest))) =
           stdout_text (trace (judged w s p st rest)) @
           reports (exit_value (judged w s p st rest))
             (take (nat (cur (judged w s p st rest) - i (judged w s p st rest)))
                (pending (judged w s p st rest)))"
      by (simp only: once [unfolded reap_once_def])
    have fields: "exit_value (judged w s p st rest) = verdict (exit_value s) st"
      "cur (judged w s p st rest) - i (judged w s p st rest) = cur s - (i s + 1)"
      "pending (judged w s p st rest) = rest"
      "stdout_text (trace (judged w s p st rest)) =
         stdout_text (trace s) @ said (exit_value s) st (int p)"
      by (simp_all add: judged_def stdout_text_append stdout_text_Cons stdout_text_report)
    show ?thesis
      using ih unfolding unfold fields turns pend by simp
  qed
qed

lemma settled_verdicts: "ev \<noteq> 0 \<Longrightarrow> verdicts ev xs = ev \<and> reports ev xs = []"
proof (induction xs arbitrary: ev)
  case Nil
  then show ?case by simp
next
  case (Cons x xs)
  obtain p st where x: "x = (p, st)" by (cases x)
  have "verdict ev st = ev" and "said ev st (int p) = []"
    using Cons.prems by (cases st; simp)+
  then show ?case
    using Cons x by (simp add: stdout_text_def)
qed

lemma clean_verdicts:
  "\<forall>x \<in> set pre. snd x = Exited 0 \<Longrightarrow>
   verdicts 0 (pre @ ys) = verdicts 0 ys \<and> reports 0 (pre @ ys) = reports 0 ys"
  by (induction pre) (auto simp: stdout_text_def)

lemma first_exit_verdict:
  assumes "\<forall>x \<in> set pre. snd x = Exited 0" and "c \<noteq> 0"
  shows "verdicts 0 (pre @ (p, Exited c) # post) = c \<and>
         reports 0 (pre @ (p, Exited c) # post) = [exit_message c (int p)]"
  using clean_verdicts [OF assms(1), of "(p, Exited c) # post"] settled_verdicts [OF assms(2), of post]
    assms(2)
  by (simp add: stdout_text_def)

lemma stdout_builder: "\<forall>e \<in> set t. builder_event e \<Longrightarrow> stdout_text t = []"
  by (induction t) (auto simp: stdout_text_def elim: builder_event.elims)

lemma reaped_runs:
  assumes "built w" and "\<forall>k. \<not> fails w k" and "length (terminations w) = length (topology w)"
  shows "halted (reaped w) = None \<and>
         exit_value (reaped w) = verdicts 0 (terminations w) \<and>
         stdout_text (trace (reaped w)) = reports 0 (terminations w)"
proof -
  let ?s = "(builder w (init w))\<lparr>i := 0\<rparr>"
  have p: "parent_ok w (builder w (init w))"
    using assms(1) by (rule parent_facts)
  have alive: "halted ?s = None"
    using assms(1) by (simp add: built_def)
  have turns: "nat (cur ?s - i ?s) = length (terminations w)"
    using p assms(3) by (simp add: parent_ok_def)
  have enough: "nat (cur ?s - i ?s) \<le> length (pending ?s)"
    using p turns by (simp add: parent_ok_def)
  have silent: "stdout_text (trace ?s) = []"
    using p by (simp add: parent_ok_def stdout_builder)
  show ?thesis
    using reap_loop_runs [OF alive assms(2) enough] p silent
    unfolding turns reaped_def by (simp add: parent_ok_def)
qed

lemma late_failure_built: "built late_failure"
  unfolding built_def by code_simp


subsection \<open>Diagnostics\<close>

lemma diagnosed_quiet: "\<forall>e \<in> set t. \<not> needs_report e \<Longrightarrow> diagnosed t"
  by (induction t rule: diagnosed.induct) auto

lemma diagnosed_append: "diagnosed xs \<Longrightarrow> diagnosed ys \<Longrightarrow> diagnosed (xs @ ys)"
proof (induction xs rule: diagnosed.induct)
  case 1
  then show ?case by simp
next
  case (2 e)
  then show ?case by (cases ys) auto
next
  case (3 e e' es)
  then show ?case by auto
qed

lemma reported_quiet: "\<forall>e \<in> set t. \<not> failed_child e \<Longrightarrow> first_failure_reported t"
  by (induction t rule: first_failure_reported.induct) auto

lemma reported_append_quiet:
  "\<forall>e \<in> set xs. \<not> failed_child e \<Longrightarrow>
   first_failure_reported (xs @ ys) = first_failure_reported ys"
proof (induction xs rule: first_failure_reported.induct)
  case 1
  then show ?case by simp
next
  case (2 e)
  then show ?case by (cases ys) auto
next
  case (3 e e' es)
  then show ?case by auto
qed

lemma reported_append_done:
  "first_failure_reported xs \<Longrightarrow> \<exists>e \<in> set xs. failed_child e \<Longrightarrow>
   first_failure_reported (xs @ ys)"
proof (induction xs rule: first_failure_reported.induct)
  case 1
  then show ?case by simp
next
  case (2 e)
  then show ?case by auto
next
  case (3 e e' es)
  then show ?case by (cases "failed_child e") auto
qed

lemma reported_append:
  assumes "first_failure_reported xs" and "first_failure_reported ys"
  shows "first_failure_reported (xs @ ys)"
proof (cases "\<exists>e \<in> set xs. failed_child e")
  case True
  with assms(1) show ?thesis by (rule reported_append_done)
next
  case False
  then show ?thesis using assms(2) by (simp add: reported_append_quiet)
qed

lemma builder_events_quiet:
  "builder_event e \<Longrightarrow> \<not> needs_report e \<and> \<not> failed_child e"
  by (cases e) auto

lemma reporting_judged:
  assumes "reporting s" and "halted s = None"
  shows "reporting (judged w s p st rest)"
proof -
  let ?chunk = "Sys_wait (int p) (Some st) #
    report (stdout_mode w) (stdout_buf s) (said (exit_value s) st (int p))"
  have d: "diagnosed ?chunk"
    by (cases st) (auto simp: writes_def)
  have fresh: "first_failure_reported ?chunk" if "exit_value s = 0"
    using that by (cases st) (auto simp: writes_def)
  have marks: "\<exists>e \<in> set ?chunk. failed_child e"
    if "exit_value s = 0" "verdict (exit_value s) st \<noteq> 0"
    using that by (cases st) auto
  have keeps: "verdict (exit_value s) st = exit_value s" if "exit_value s \<noteq> 0"
    using that by (cases st) auto
  show ?thesis
  proof (cases "exit_value s = 0")
    case True
    then show ?thesis
      using assms d fresh marks
      by (auto simp: reporting_def judged_def diagnosed_append reported_append)
  next
    case False
    then have "\<exists>e \<in> set (trace s). failed_child e"
      using assms by (simp add: reporting_def)
    then show ?thesis
      using assms d False keeps
      by (auto simp: reporting_def judged_def diagnosed_append reported_append_done)
  qed
qed

lemma reporting_wait_failed:
  assumes "reporting s"
  shows "reporting (wait_failed s)"
proof -
  let ?chunk = "[Sys_wait (-1) None, Perror ''@digenv: wait() returned unexpectedly''] @
    writes (stdout_buf s) @ [Sys_exit 1]"
  have "diagnosed ?chunk" and "first_failure_reported ?chunk"
    by (simp_all add: writes_def)
  then show ?thesis
    using assms
    by (simp add: reporting_def wait_failed_def diagnosed_append reported_append
        del: append.simps)
qed

lemma reporting_main: "reporting (main w)"
proof (cases "built w")
  case False
  then have h: "halted_ok w (main w)"
    by (rule halted_facts)
  then have "\<forall>e \<in> set (trace (main w)). \<not> failed_child e"
    by (auto simp: halted_ok_def elim!: failed_child.elims)
  moreover have "halted (main w) \<noteq> None"
    using False by (simp add: main_halted built_def)
  ultimately show ?thesis
    using h by (simp add: reporting_def halted_ok_def reported_quiet)
next
  case True
  let ?s = "(builder w (init w))\<lparr>i := 0\<rparr>"
  have p: "parent_ok w (builder w (init w))"
    using True by (rule parent_facts)
  have start: "reporting ?s"
    using p by (simp add: reporting_def parent_ok_def diagnosed_quiet reported_quiet
        builder_events_quiet)
  have r: "reporting (reaped w)"
    unfolding reaped_def
    by (rule reap_loop_invariant [where I = reporting, OF start])
      (simp_all add: reporting_judged reporting_wait_failed)
  show ?thesis
  proof (cases "halted (reaped w) = None")
    case False
    then show ?thesis using r by (auto simp: main_built [OF True])
  next
    case alive: True
    have "diagnosed (writes (stdout_buf (reaped w)) @ [Sys_exit (exit_value (reaped w))])"
      and "first_failure_reported
        (writes (stdout_buf (reaped w)) @ [Sys_exit (exit_value (reaped w))])"
      by (simp_all add: writes_def)
    then show ?thesis
      using r alive
      by (simp add: main_built [OF True] exit_def reporting_def diagnosed_append
          reported_append)
  qed
qed

lemma exit_message_names_process: "\<exists>x y. exit_message c p = x @ show_int p @ y"
proof -
  have "exit_message c p =
      (''A child had problem and failed with exit code '' @ show_int c @
       [CHR ''.'', CHR 0x0A] @ ''Child pid: '') @ show_int p @ [CHR 0x0A]"
    by (simp add: exit_message_def)
  then show ?thesis by blast
qed

lemma signal_message_names_process: "\<exists>x y. signal_message g p = x @ show_int p @ y"
proof -
  have "signal_message g p =
      (''A child had problem and failed with signal '' @ show_int g @
       [CHR ''.'', CHR 0x0A] @ ''Child pid: '') @ show_int p @ [CHR 0x0A]"
    by (simp add: signal_message_def)
  then show ?thesis by blast
qed

lemma fork_fails_trace:
  "trace (main fork_fails) =
     [Sys_pipe 0, Sys_pipe 0, Sys_pipe 0, Sys_fork Source (-1), Perror ''Error when forking'',
      Sys_exit 1]"
  by code_simp

lemma late_failure_trace:
  "trace (main late_failure) =
     [Sys_pipe 0, Sys_pipe 0, Sys_pipe 0, Sys_fork Source 103, Sys_fork Sort 104,
      Sys_close 3 0, Sys_close 4 0, Sys_fork Sink 107, Sys_close 5 0, Sys_close 6 0,
      Sys_wait 103 (Some (Exited 0)), Sys_wait 104 (Some (Exited 3)),
      Printf (exit_message 3 104), Sys_write 1 (exit_message 3 104),
      Sys_wait 107 (Some (Signaled 9)), Sys_exit 3]"
  by code_simp


subsection \<open>What reaches the standard output\<close>

lemma written_append: "written (xs @ ys) = written xs @ written ys"
  by (simp add: written_def)

lemma written_Cons: "written (e # es) = written_of e @ written es"
  by (simp add: written_def)

lemma written_Nil: "written [] = []"
  by (simp add: written_def)

lemma written_writes: "concat (written (writes t)) = t"
  by (simp add: written_def writes_def)

lemma stdout_text_Nil: "stdout_text [] = []"
  by (simp add: stdout_text_def)

lemma sent_kept: "sent m b t @ kept m b t = b @ t"
  by (simp only: sent_def kept_def append_take_drop_id)

lemma written_report:
  "concat (written (report m b ts)) @ held m b ts = b @ concat ts"
proof (induction ts arbitrary: b)
  case Nil
  then show ?case by (simp add: written_Nil)
next
  case (Cons t ts)
  have "concat (written (report m b (t # ts))) @ held m b (t # ts) =
      sent m b t @ (concat (written (report m (kept m b t) ts)) @ held m (kept m b t) ts)"
    by (simp add: written_append written_writes written_Cons)
  also have "\<dots> = sent m b t @ (kept m b t @ concat ts)"
    by (simp only: Cons.IH)
  also have "\<dots> = (sent m b t @ kept m b t) @ concat ts"
    by simp
  also have "\<dots> = b @ concat (t # ts)"
    by (simp only: sent_kept) simp
  finally show ?case .
qed

lemma written_builder: "\<forall>e \<in> set t. builder_event e \<Longrightarrow> written t = []"
  by (induction t) (auto simp: written_def elim: builder_event.elims)

lemma flushing_judged:
  assumes "flushing s" and "halted s = None"
  shows "flushing (judged w s p st rest)"
proof -
  let ?ts = "said (exit_value s) st (int p)"
  have "concat (written (trace s)) @
      (concat (written (report (stdout_mode w) (stdout_buf s) ?ts)) @
       held (stdout_mode w) (stdout_buf s) ?ts) =
      concat (stdout_text (trace s)) @ concat ?ts"
    using assms(1) by (simp add: written_report flushing_def)
  then show ?thesis
    using assms(2)
    by (simp add: flushing_def judged_def written_append written_Cons stdout_text_append
        stdout_text_Cons stdout_text_report)
qed

lemma flushing_wait_failed:
  assumes "flushing s"
  shows "flushing (wait_failed s)"
  using assms
  by (simp add: flushing_def wait_failed_def written_append written_writes written_Cons
      written_Nil stdout_text_append stdout_text_writes stdout_text_Cons stdout_text_Nil)

text \<open>
  When the parent has ended, every text it gave to \<^verbatim>\<open>printf\<close> has been written to
  descriptor 1.
\<close>

lemma parent_output_written:
  assumes "built w"
  shows "halted (main w) \<noteq> None \<and>
         concat (written (trace (main w))) = concat (stdout_text (trace (main w)))"
proof -
  let ?s = "(builder w (init w))\<lparr>i := 0\<rparr>"
  have p: "parent_ok w (builder w (init w))"
    using assms by (rule parent_facts)
  have start: "flushing ?s"
    using p by (simp add: flushing_def parent_ok_def written_builder stdout_builder)
  have r: "flushing (reaped w)"
    unfolding reaped_def
    by (rule reap_loop_invariant [where I = flushing, OF start])
      (simp_all add: flushing_judged flushing_wait_failed)
  show ?thesis
  proof (cases "halted (reaped w) = None")
    case False
    then show ?thesis using r by (auto simp: main_built [OF assms] flushing_def)
  next
    case True
    then show ?thesis
      using r
      by (simp add: main_built [OF assms] exit_def flushing_def written_append written_writes
          written_Cons written_Nil stdout_text_append stdout_text_writes stdout_text_Cons
          stdout_text_Nil)
  qed
qed


subsection \<open>The descriptors of a stage\<close>

lemmas table_defs = alloc_def install_def is_open_def dup_table_def std_streams_def

lemma stage_descriptors: "inherited w = std_streams \<Longrightarrow> descriptors_post w (builder w (init w))"
  unfolding builder_defs
  apply (auto simp add: steps halted_init init_def grep_flag table_defs
      intro!: ifI [where P = "descriptors_post w"] split del: if_split cong: exec_congs)
  apply (simp_all add: descriptors_post_def wired_def PIPE_IN_def PIPE_OUT_def)
  done



lemma plain_inherited: "inherited plain = std_streams"
  by code_simp

lemma filter_run_inherited: "inherited filter_run = std_streams"
  by code_simp

lemma filter_run_halted:
  "halted (main filter_run) = Some (Image ''grep'' [''digenv'', ''PATH''])"
  by code_simp


section \<open>The claims\<close>

text \<open>
  C1. A child killed by a signal is reported but does not set the status. In the run
  without arguments whose first reaped child was killed by signal 9 and whose other
  children exit with 0, the diagnostic for the signal is printed and the final status is
  0, where the specification asks for 9: line 289 compares \<^verbatim>\<open>exit_value\<close> with the signal
  number where line 280, its sibling, assigns.
\<close>

theorem signal_leaves_status_zero:
  "stdout_text (trace (main signalled)) = [signal_message 9 103] \<and>
   exit_value (main signalled) = 0 \<and> halted (main signalled) = Some (Exit 0)"
  by code_simp

text \<open>
  C2, as the code has it. When the first failure in reap order is a normal exit with a
  code other than 0, that code is the final status of the pipeline and its diagnostic is
  the only one printed: a later failure, by exit code or by signal, neither overwrites
  the status nor is reported. (The parent of a run in which no system call fails and
  every stage is reaped.)
\<close>

theorem first_exit_failure_decides:
  assumes "built w" and "\<forall>k. \<not> fails w k"
    and "length (terminations w) = length (topology w)"
    and "terminations w = pre @ (p, Exited c) # post"
    and "\<forall>x \<in> set pre. snd x = Exited 0" and "c \<noteq> 0"
  shows "halted (main w) = Some (Exit c) \<and>
         stdout_text (trace (main w)) = [exit_message c (int p)]"
proof -
  have r: "halted (reaped w) = None" "exit_value (reaped w) = c"
    "stdout_text (trace (reaped w)) = [exit_message c (int p)]"
    using reaped_runs [OF assms(1,2,3)] first_exit_verdict [OF assms(5,6), of p post]
    by (simp_all add: assms(4))
  have "main w = exit c (reaped w)"
    using r by (simp add: main_built [OF assms(1)])
  then show ?thesis
    using r by (simp add: exit_def stdout_text_def writes_def)
qed

theorem first_exit_failure_decides_witness:
  "built late_failure \<and> (\<forall>k. \<not> fails late_failure k) \<and>
   length (terminations late_failure) = length (topology late_failure) \<and>
   terminations late_failure = [(103, Exited 0)] @ (104, Exited 3) # [(107, Signaled 9)] \<and>
   halted (main late_failure) = Some (Exit 3) \<and>
   stdout_text (trace (main late_failure)) = [exit_message 3 104]"
proof -
  have h: "\<forall>k. \<not> fails late_failure k"
    "length (terminations late_failure) = length (topology late_failure)"
    "terminations late_failure = [(103, Exited 0)] @ (104, Exited 3) # [(107, Signaled 9)]"
    by (simp_all add: late_failure_def plain_def topology_def)
  show ?thesis
    using first_exit_failure_decides [OF late_failure_built h, of ] h late_failure_built
    by simp
qed

text \<open>
  C2, a later failure: the second child to be reaped fails with code 2 after the first
  failed with code 1, and the only diagnostic printed is the first child's.
\<close>

theorem later_failure_not_reported:
  "Sys_wait 104 (Some (Exited 2)) \<in> set (trace (main two_failures)) \<and>
   stdout_text (trace (main two_failures)) = [exit_message 1 103] \<and>
   halted (main two_failures) = Some (Exit 1)"
  by code_simp






text \<open>
  C5. The parent keeps the third pipe in the topology of three stages. When the parent of
  the run without arguments has spawned its last stage, both ends of the third pipe are
  still open in it (descriptors 7 and 8), where the specification asks for none. With an
  argument, every channel descriptor of the parent is closed at that point.
\<close>

theorem parent_keeps_third_pipe:
  "built plain \<and>
   fds (builder plain (init plain)) =
     [Some (Stream 0), Some (Stream 1), Some (Stream 2), None, None, None, None,
      Some (Chan 2 PIPE_IN), Some (Chan 2 PIPE_OUT)] \<and>
   built with_args \<and>
   fds (builder with_args (init with_args)) =
     [Some (Stream 0), Some (Stream 1), Some (Stream 2), None, None, None, None, None, None]"
  unfolding built_def by code_simp

text \<open>
  C6, as the code has it. In every stage process that was started with the three standard
  descriptors open, at the image replacement the standard input and output refer to the
  channel ends the stage uses, the unused end of each channel next to the stage (the
  write end of its input channel, the read end of its output channel) is closed, and both
  ends of every channel that is not next to it and that it inherited open are still open.
\<close>

theorem stage_closes_unused_ends:
  assumes "inherited w = std_streams" and "Sys_fork r 0 \<in> set (trace (main w))"
    and "halted (main w) = Some (Image f a)"
  shows "wired (1 < length (argv w)) r (fds (main w))"
proof -
  have "main w = builder w (init w)"
    using stage_run [OF assms(2)] by (simp add: main_halted)
  then show ?thesis
    using stage_descriptors [OF assms(1)] assms(2,3) by (simp add: descriptors_post_def)
qed

theorem stage_closes_unused_ends_witness:
  "inherited filter_run = std_streams \<and> Sys_fork Filter 0 \<in> set (trace (main filter_run)) \<and>
   halted (main filter_run) = Some (Image ''grep'' [''digenv'', ''PATH'']) \<and>
   wired True Filter (fds (main filter_run))"
  using stage_closes_unused_ends [of filter_run Filter "''grep''" "[''digenv'', ''PATH'']"]
  by (simp add: filter_run_inherited filter_run_trace filter_run_halted filter_run_argv)

text \<open>
  C6, the channels of the other stages: when the source stage of the run without arguments becomes
  \<^verbatim>\<open>printenv\<close> it still holds both ends of the second and of the third pipe, which are
  not channels of its neighbours (descriptors 5 to 8).
\<close>

theorem stage_keeps_other_channels:
  "halted (main source_run) = Some (Image ''printenv'' [''printenv'']) \<and>
   fds (main source_run) =
     [Some (Stream 0), Some (Chan 0 PIPE_OUT), Some (Stream 2), None, None,
      Some (Chan 1 PIPE_IN), Some (Chan 1 PIPE_OUT), Some (Chan 2 PIPE_IN),
      Some (Chan 2 PIPE_OUT)]"
  by code_simp

text \<open>
  C7. Every stage process (a run of \<^verbatim>\<open>main\<close> in which a \<^verbatim>\<open>fork\<close> returned 0) ends either
  as the image of its target program or by \<^verbatim>\<open>exit(1)\<close>, and never goes back to the code of
  the parent: after that \<^verbatim>\<open>fork\<close> it calls no \<^verbatim>\<open>pipe\<close>, \<^verbatim>\<open>fork\<close> or \<^verbatim>\<open>wait\<close>, and the
  \<^verbatim>\<open>++cur\<close> that follows its block is not executed, so \<^verbatim>\<open>cur\<close> still counts the stages
  spawned before it.
\<close>

theorem stage_becomes_program_or_exits_1:
  assumes "Sys_fork r 0 \<in> set (trace (main w))"
  shows "(halted (main w) = Some (Exit 1) \<or>
          (\<exists>f a. halted (main w) = Some (Image f a) \<and> (f, a) \<in> set (targets w r))) \<and>
         (\<forall>e \<in> set (after_fork0 (trace (main w))). \<not> builder_call e) \<and>
         cur (main w) = int (length (spawned (trace (main w))))"
  using stage_run [OF assms] by (simp add: stage_ok_def)

theorem stage_becomes_program_or_exits_1_witness:
  "Sys_fork Source 0 \<in> set (trace (main source_run)) \<and>
   (halted (main source_run) = Some (Exit 1) \<or>
    halted (main source_run) = Some (Image ''printenv'' [''printenv''])) \<and>
   cur (main source_run) = 0"
  using stage_becomes_program_or_exits_1 [of Source source_run]
  by (simp add: source_run_trace spawned_def)

text \<open>
  C8, as the code has it. In every run, every system call that fails (\<^verbatim>\<open>pipe\<close>, \<^verbatim>\<open>fork\<close>,
  \<^verbatim>\<open>dup2\<close>, \<^verbatim>\<open>close\<close>, \<^verbatim>\<open>wait\<close>, and an image replacement that no other attempt follows)
  is followed at once by a message on the error stream; the first child reaped as failed
  or killed by a signal is followed at once by its diagnostic, which is written to the
  standard output, not to the error stream, and which contains the child's process
  identifier.
\<close>

theorem diagnostics_and_their_streams:
  "diagnosed (trace (main w)) \<and> first_failure_reported (trace (main w)) \<and>
   (\<exists>x y. exit_message c p = x @ show_int p @ y) \<and>
   (\<exists>x y. signal_message g p = x @ show_int p @ y)"
  using reporting_main [of w] exit_message_names_process signal_message_names_process
  by (simp add: reporting_def)

theorem diagnostics_and_their_streams_witness:
  "needs_report (Sys_fork Source (-1)) \<and>
   Sys_fork Source (-1) \<in> set (trace (main fork_fails)) \<and>
   diagnosed (trace (main fork_fails)) \<and>
   stderr_text (trace (main fork_fails)) = [''Error when forking''] \<and>
   failed_child (Sys_wait 104 (Some (Exited 3))) \<and>
   Sys_wait 104 (Some (Exited 3)) \<in> set (trace (main late_failure)) \<and>
   first_failure_reported (trace (main late_failure))"
proof -
  have "diagnosed (trace (main fork_fails))"
    and "first_failure_reported (trace (main late_failure))"
    using diagnostics_and_their_streams [of fork_fails]
      diagnostics_and_their_streams [of late_failure]
    by simp_all
  moreover have "Sys_fork Source (-1) \<in> set (trace (main fork_fails))"
    and "stderr_text (trace (main fork_fails)) = [''Error when forking'']"
    by (simp_all add: fork_fails_trace stderr_text_def)
  moreover have "Sys_wait 104 (Some (Exited 3)) \<in> set (trace (main late_failure))"
    by (simp add: late_failure_trace)
  ultimately show ?thesis by simp
qed

text \<open>
  C8, the stream of the child's diagnostic: the diagnostic for the first failing child goes to the standard
  output, and nothing is written to the error stream.
\<close>

theorem child_diagnostic_on_stdout:
  "stdout_text (trace (main late_failure)) = [exit_message 3 104] \<and>
   stderr_text (trace (main late_failure)) = []"
  by code_simp



text \<open>
  C10. The message is not written before the attempts. In the last stage of the run
  without arguments, started from a terminal with \<^verbatim>\<open>PAGER\<close> set to \<^verbatim>\<open>cat\<close>, the call of
  \<^verbatim>\<open>printf\<close> comes before the first attempt, but the text ends no line and the program
  does not flush it, so it stays in the buffer of \<^verbatim>\<open>stdout\<close>. When \<^verbatim>\<open>cat\<close> is executed
  the buffer goes with the old image and nothing is ever written to the standard output;
  when no pager can be executed the text is written as the stage exits, after the three
  attempts and after the message on the error stream.
\<close>

theorem found_pager_message_lost:
  "trace (main sink_run) =
     [Sys_pipe 0, Sys_pipe 0, Sys_pipe 0, Sys_fork Source 103, Sys_fork Sort 104,
      Sys_close 3 0, Sys_close 4 0, Sys_fork Sink 0, Sys_dup2 5 0 0, Sys_close 6 0,
      Getenv ''PAGER'' (Some ''cat''), Printf ''Found PAGER: cat'',
      Sys_exec ''cat'' [''cat''] True] \<and>
   halted (main sink_run) = Some (Image ''cat'' [''cat'']) \<and>
   written (trace (main sink_run)) = [] \<and>
   written (takeWhile (\<lambda>e. \<not> is_exec e) (trace (main no_pager_run))) = [] \<and>
   trace (main no_pager_run) =
     [Sys_pipe 0, Sys_pipe 0, Sys_pipe 0, Sys_fork Source 103, Sys_fork Sort 104,
      Sys_close 3 0, Sys_close 4 0, Sys_fork Sink 0, Sys_dup2 5 0 0, Sys_close 6 0,
      Getenv ''PAGER'' (Some ''cat''), Printf ''Found PAGER: cat'',
      Sys_exec ''cat'' [''cat''] False, Sys_exec ''less'' [''less''] False,
      Sys_exec ''more'' [''more''] False, Perror ''Problem with call to pager'',
      Sys_write 1 ''Found PAGER: cat'', Sys_exit 1]"
  by code_simp

end
